theory Spec2Isabelle
  imports Main
begin

section \<open>Suspect: a block-structured test driver for command-line programs\<close>

text \<open>
  Shallow embedding of \<^verbatim>\<open>suspect.c\<close>. The program reads a script, starts one child
  process per block, and drives it through pipes. Everything the C code does to the
  outside world is explicit here:
  \<^item> byte streams (the script, the run's standard input, the child's output) are
    \<^typ>\<open>string\<close>s of the bytes still to be read, followed by end-of-file;
  \<^item> the globals of the C file are the fields of the record \<open>state\<close>, together with
    the part of the environment the run can observe;
  \<^item> a call either returns a value and a new state (\<open>Inr\<close>), or ends the run inside
    the call (\<open>Inl\<close>): by \<^verbatim>\<open>exit\<close>, by blocking forever, or by undefined behaviour
    of the C language, which is a result of its own and never a success.

  Undefined behaviour is recorded where the text of the program has it: a NULL passed
  to \<^verbatim>\<open>strcmp\<close>, \<^verbatim>\<open>strlen\<close> or \<^verbatim>\<open>printf\<close>, a stream used after
  \<^verbatim>\<open>fclose\<close>, a conversion of \<^verbatim>\<open>fprintf\<close> with no argument. The program
  installs a handler for \<^verbatim>\<open>SIGSEGV\<close> that reports a command failure, and on many
  systems some of these end there; the language promises nothing, and neither does the
  model. A number too large for the \<^verbatim>\<open>int\<close> that \<^verbatim>\<open>sscanf\<close> stores it in is
  different: the program has no check of the range and goes on with what was stored, so
  the model stores what the C library of a 64-bit Linux system stores.

  Signals are part of the environment. The run inherits a signal mask, which the
  program never changes: a blocked signal is never delivered. The signal by which a
  child says that its \<^verbatim>\<open>execvp\<close> failed is asynchronous, and the run goes on reading
  the script until it arrives.

  Not modelled: the heap (the sizes passed to \<^verbatim>\<open>malloc\<close>, what is never freed), what
  \<^verbatim>\<open>perror\<close> writes to standard error, what the copy of the run that lives on in a
  child whose \<^verbatim>\<open>execvp\<close> failed does there, and wall-clock time.
\<close>

section \<open>The program\<close>

subsection \<open>C strings\<close>

definition NUL :: char where "NUL = CHR 0x00"
definition NL :: char where "NL = CHR 0x0A"

text \<open>The bytes of a buffer up to its first NUL: what \<^verbatim>\<open>strlen\<close>, \<^verbatim>\<open>strcat\<close> see.\<close>

definition cstr :: "string \<Rightarrow> string" where
  "cstr b = takeWhile (\<lambda>c. c \<noteq> NUL) b"

text \<open>\<^verbatim>\<open>isspace\<close> in the C locale.\<close>

definition isspace :: "char \<Rightarrow> bool" where
  "isspace c = (c \<in> set [CHR '' '', CHR 0x09, CHR 0x0A, CHR 0x0B, CHR 0x0C, CHR 0x0D])"

definition isdigit :: "char \<Rightarrow> bool" where
  "isdigit c = (c \<in> set ''0123456789'')"

definition digit_val :: "char \<Rightarrow> int" where
  "digit_val c = of_char c - 48"

definition digit_char :: "nat \<Rightarrow> char" where
  "digit_char d = ''0123456789'' ! (d mod 10)"

text \<open>\<^verbatim>\<open>printf("%d", i)\<close>.\<close>

function dec_nat :: "nat \<Rightarrow> string" where
  "dec_nat n = (if n < 10 then [digit_char n] else dec_nat (n div 10) @ [digit_char n])"
  by pat_completeness auto
termination
  by (relation "measure id") auto

definition dec_int :: "int \<Rightarrow> string" where
  "dec_int i = (if i < 0 then CHR ''-'' # dec_nat (nat (- i)) else dec_nat (nat i))"

subsection \<open>Reading a line: \<^verbatim>\<open>append_to_line\<close>, \<^verbatim>\<open>get_line\<close>\<close>

definition BUFF_LEN :: nat where "BUFF_LEN = 8"

definition append_to_line :: "string \<Rightarrow> string \<Rightarrow> string" where
  "append_to_line line buffer = cstr line @ cstr buffer"

text \<open>
  The loop of \<^verbatim>\<open>get_line\<close> over the bytes still to be read. \<open>buffer\<close> holds the
  \<open>cCount\<close> characters of the current section (the C array also holds the NUL after
  them). The result is the line, or \<open>None\<close> for the NULL returned at end-of-file, and
  the bytes left in the stream.
\<close>

fun get_line_loop :: "string \<Rightarrow> string \<Rightarrow> string \<Rightarrow> string option \<times> string" where
  "get_line_loop [] line buffer =
     (if length buffer = 0 then (None, [])
      else (Some (append_to_line line buffer), []))"
| "get_line_loop (c # cs) line buffer =
     (if c = NL then (Some (append_to_line line buffer), cs)
      else if length buffer < BUFF_LEN - 1 then get_line_loop cs line (buffer @ [c])
      else get_line_loop cs (append_to_line line buffer) [c])"

definition get_line :: "string \<Rightarrow> string option \<times> string" where
  "get_line input = get_line_loop input [] []"

definition block_end :: "string \<Rightarrow> bool" where
  "block_end line = (line = [])"

subsection \<open>\<^verbatim>\<open>strtok\<close>, \<^verbatim>\<open>sscanf\<close> and \<^verbatim>\<open>fprintf\<close> as the program uses them\<close>

text \<open>
  The first call \<^verbatim>\<open>strtok(s, delims)\<close>: the token and the text after the delimiter
  that ended it, or \<open>None\<close> when the text holds delimiters only.
\<close>

definition strtok :: "string \<Rightarrow> string \<Rightarrow> (string \<times> string) option" where
  "strtok s delims =
     (let s1 = dropWhile (\<lambda>c. c \<in> set delims) s in
      if s1 = [] then None
      else Some (takeWhile (\<lambda>c. c \<notin> set delims) s1,
                 drop 1 (dropWhile (\<lambda>c. c \<notin> set delims) s1)))"

text \<open>All the tokens that repeated calls of \<^verbatim>\<open>strtok\<close> with one delimiter give.\<close>

fun tokens :: "char \<Rightarrow> string \<Rightarrow> string \<Rightarrow> string list" where
  "tokens d [] cur = (if cur = [] then [] else [cur])"
| "tokens d (c # cs) cur =
     (if c = d then (if cur = [] then [] else [cur]) @ tokens d cs []
      else tokens d cs (cur @ [c]))"

text \<open>
  The conversion \<^verbatim>\<open>%d\<close>: white space is skipped, then an optional sign and at least
  one decimal digit are read. The value is the mathematical one; \<open>stored_int\<close> below
  is what becomes of it in the \<^verbatim>\<open>int\<close> it is stored in.
\<close>

fun digits_val :: "string \<Rightarrow> int \<Rightarrow> int" where
  "digits_val [] acc = acc"
| "digits_val (c # cs) acc = digits_val cs (acc * 10 + digit_val c)"

definition scan_d :: "string \<Rightarrow> (int \<times> string) option" where
  "scan_d s =
     (let s1 = dropWhile isspace s;
          neg = (s1 \<noteq> [] \<and> hd s1 = CHR ''-'');
          s2 = (if s1 \<noteq> [] \<and> (hd s1 = CHR ''-'' \<or> hd s1 = CHR ''+'') then tl s1 else s1);
          ds = takeWhile isdigit s2
      in if ds = [] then None
         else Some ((if neg then - digits_val ds 0 else digits_val ds 0),
                    dropWhile isdigit s2))"

text \<open>The conversion \<^verbatim>\<open>%s\<close>: white space is skipped, then a non-empty word is read.\<close>

definition scan_s :: "string \<Rightarrow> (string \<times> string) option" where
  "scan_s s =
     (let s1 = dropWhile isspace s; w = takeWhile (\<lambda>c. \<not> isspace c) s1
      in if w = [] then None else Some (w, dropWhile (\<lambda>c. \<not> isspace c) s1))"

text \<open>
  The number \<^verbatim>\<open>%d\<close> stores in an \<^verbatim>\<open>int\<close>. The C library converts the digits
  as \<^verbatim>\<open>strtol\<close> does, which stops at the ends of the range of \<^verbatim>\<open>long\<close> (64
  bits), and assigns the result to the \<^verbatim>\<open>int\<close>, which keeps its low 32 bits. A
  number that fits an \<^verbatim>\<open>int\<close> is stored as it is.
\<close>

definition LONG_MIN :: int where "LONG_MIN = - (2 ^ 63)"
definition LONG_MAX :: int where "LONG_MAX = 2 ^ 63 - 1"

definition strtol_value :: "int \<Rightarrow> int" where
  "strtol_value n = (if n < LONG_MIN then LONG_MIN else if LONG_MAX < n then LONG_MAX else n)"

definition stored_int :: "int \<Rightarrow> int" where
  "stored_int n = (strtol_value n + 2 ^ 31) mod 2 ^ 32 - 2 ^ 31"

text \<open>
  \<^verbatim>\<open>fprintf(stream, message)\<close> with no further argument: the message is the format.
  \<^verbatim>\<open>%%\<close> writes one \<^verbatim>\<open>%\<close>; any other conversion asks for an argument that
  was not passed, which the C standard leaves undefined (\<open>None\<close>).
\<close>

fun printf_noargs :: "string \<Rightarrow> string option" where
  "printf_noargs [] = Some []"
| "printf_noargs [c] = (if c = CHR ''%'' then None else Some [c])"
| "printf_noargs (c # d # cs) =
     (if c = CHR ''%'' then
        (if d = CHR ''%'' then map_option (\<lambda>r. CHR ''%'' # r) (printf_noargs cs) else None)
      else map_option (\<lambda>r. c # r) (printf_noargs (d # cs)))"

subsection \<open>The environment: child processes, pipes and files\<close>

text \<open>
  A child process is known to the run only through what it does on its pipes, so a
  program is modelled by what can be observed of it once it has received some bytes on
  its standard input (and, maybe, the end of that input) and has run until it
  terminates or waits for more: the bytes written to its standard output so far,
  whether that output has ended, how a write to its standard input is answered, the
  status \<^verbatim>\<open>wait\<close> reports if it has terminated, and the files that then exist.
  The run is sequential and blocks on the child, so this is all it can see. Wall-clock
  time is not modelled: a call that would wait forever ends the run by the timer when
  one is armed, and every other call is taken to finish before any deadline.
\<close>

datatype wcond =
    Accepting   \<comment> \<open>the write is delivered\<close>
  | Broken      \<comment> \<open>no reader is left: the write raises \<^verbatim>\<open>SIGPIPE\<close> and fails\<close>

record observation =
  written :: string
  out_closed :: bool
  stdin_cond :: wcond
  terminated :: "int option"
  fs_access :: "string \<Rightarrow> bool"
  fs_stat :: "string \<Rightarrow> int option"

type_synonym program = "string \<Rightarrow> bool \<Rightarrow> observation"

text \<open>
  What \<^verbatim>\<open>fork\<close> and \<^verbatim>\<open>execvp\<close> give. When \<^verbatim>\<open>execvp\<close> fails, the child
  sends \<^verbatim>\<open>SIGUSR1\<close> to the run, which by then has returned from
  \<^verbatim>\<open>run_new_process\<close> and goes on with the script: when the signal arrives is up
  to the scheduler. The environment fixes it as the number \<open>t\<close> of lines the run
  counts between the \<^verbatim>\<open>fork\<close> and the arrival of the signal; \<open>t = 0\<close> is a signal
  that arrives before the invocation line itself is counted. The program given with a
  failed \<^verbatim>\<open>execvp\<close> is what the child is seen to do on its pipes after that.
\<close>

datatype launch =
    Pipe_failed int             \<comment> \<open>\<^verbatim>\<open>pipe\<close> failed with this \<^verbatim>\<open>errno\<close>\<close>
  | Fork_failed int             \<comment> \<open>\<^verbatim>\<open>fork\<close> failed with this \<^verbatim>\<open>errno\<close>\<close>
  | Forked int "nat option" program
      \<comment> \<open>the child's pid; \<open>None\<close> when \<^verbatim>\<open>execvp\<close> succeeds, \<open>Some t\<close> when it fails; the program\<close>

datatype signal = SIGALRM | SIGUSR1 | SIGPIPE | SIGSEGV

record world =
  fopen_r :: "string \<Rightarrow> string option"   \<comment> \<open>the bytes of a file that opens for reading\<close>
  start :: "string list \<Rightarrow> launch"        \<comment> \<open>what running an argument vector gives\<close>
  inherited_mask :: "signal \<Rightarrow> bool"     \<comment> \<open>the signals blocked when the run starts\<close>

text \<open>A \<^verbatim>\<open>FILE *\<close> global: never assigned, open, or closed by \<^verbatim>\<open>fclose\<close>.\<close>

datatype stream = Unassigned | Opened | Closed

datatype source = Stdin | Script

subsection \<open>The state of a run\<close>

record state =
  blockCount :: int
  lineCount :: int
  sawExit :: bool
  sawLimit :: bool
  readPipe :: stream
  writePipe :: stream
  pid :: int
  childStatus :: int
  echo :: bool
  child :: program          \<comment> \<open>the program behind the pipes\<close>
  sent :: string            \<comment> \<open>the bytes written to the child so far\<close>
  input_closed :: bool      \<comment> \<open>the write end of the child's input was closed\<close>
  consumed :: nat           \<comment> \<open>how many bytes of the child's output were read\<close>
  usr1_due :: "nat option"  \<comment> \<open>lines to count until the signal of a failed \<^verbatim>\<open>execvp\<close> arrives\<close>
  sigmask :: "signal \<Rightarrow> bool" \<comment> \<open>the signals that are blocked\<close>
  timer :: nat              \<comment> \<open>seconds of the pending \<^verbatim>\<open>alarm\<close>, 0 when none\<close>
  script :: string          \<comment> \<open>the bytes of the script file not read yet\<close>
  stdin :: string           \<comment> \<open>the bytes of standard input not read yet\<close>
  stdout :: string          \<comment> \<open>everything printed\<close>
  kills :: "int list"       \<comment> \<open>the pids sent \<^verbatim>\<open>SIGINT\<close>, in order\<close>

text \<open>How a run ends when it does not return from \<^verbatim>\<open>main\<close>.\<close>

datatype outcome =
    Exit int state    \<comment> \<open>\<^verbatim>\<open>exit(code)\<close>\<close>
  | Hang              \<comment> \<open>blocked on the child forever\<close>
  | Undefined         \<comment> \<open>undefined behaviour of C\<close>

type_synonym 'a result = "outcome + ('a \<times> state)"

definition obs :: "state \<Rightarrow> observation" where
  "obs s = child s (sent s) (input_closed s)"

definition idle :: program where
  "idle = (\<lambda>_ _. \<lparr>written = [], out_closed = True, stdin_cond = Broken, terminated = None,
                   fs_access = (\<lambda>_. False), fs_stat = (\<lambda>_. None)\<rparr>)"

definition init :: "string \<Rightarrow> string \<Rightarrow> state" where
  "init file_bytes stdin_bytes =
     \<lparr>blockCount = 1, lineCount = 1, sawExit = False, sawLimit = False,
      readPipe = Unassigned, writePipe = Unassigned, pid = - 1, childStatus = 0,
      echo = False, child = idle, sent = [], input_closed = False, consumed = 0,
      usr1_due = None, sigmask = (\<lambda>_. False), timer = 0, script = file_bytes,
      stdin = stdin_bytes, stdout = [], kills = []\<rparr>"

subsection \<open>Errors and signals: \<^verbatim>\<open>throw_error\<close>, \<^verbatim>\<open>handle_sigs\<close>\<close>

definition ERR_COMMAND :: int where "ERR_COMMAND = 1"
definition ERR_BLOCK :: int where "ERR_BLOCK = 2"
definition ERR_LIMIT :: int where "ERR_LIMIT = 3"
definition ERR_OPEN :: int where "ERR_OPEN = 4"

definition diagnostic :: "int \<Rightarrow> int \<Rightarrow> string \<Rightarrow> string" where
  "diagnostic code i str =
     (if code = ERR_COMMAND then ''Test failed on line '' @ dec_int i @ ''.'' @ [NL]
      else if code = ERR_BLOCK then ''Block '' @ dec_int i @ '' ended without an exit.'' @ [NL]
      else if code = ERR_LIMIT then ''Block '' @ dec_int i @ '' timed out.'' @ [NL]
      else if code = ERR_OPEN then ''Failed to open '' @ str @ ''.'' @ [NL]
      else [])"

definition throw_error :: "int \<Rightarrow> int \<Rightarrow> string \<Rightarrow> state \<Rightarrow> outcome" where
  "throw_error code i str s =
     (let s1 = s\<lparr>stdout := stdout s @ diagnostic code i str\<rparr>;
          s2 = (if pid s1 \<noteq> - 1 then s1\<lparr>kills := kills s1 @ [pid s1]\<rparr> else s1)
      in Exit code s2)"

fun handle_sigs :: "signal \<Rightarrow> state \<Rightarrow> outcome" where
  "handle_sigs SIGALRM s = throw_error ERR_LIMIT (blockCount s) [] s"
| "handle_sigs SIGUSR1 s =
     (let s1 = s\<lparr>lineCount := lineCount s - 1\<rparr>
      in throw_error ERR_COMMAND (lineCount s1) [] s1)"
| "handle_sigs SIGPIPE s = throw_error ERR_COMMAND (lineCount s) [] s"
| "handle_sigs SIGSEGV s = throw_error ERR_COMMAND (lineCount s) [] s"

text \<open>
  A call that waits for the child forever is ended by the next signal: the one of a
  failed \<^verbatim>\<open>execvp\<close> when it is still on its way, else the timer when it is armed
  and \<^verbatim>\<open>SIGALRM\<close> is not blocked.
\<close>

definition blocked :: "state \<Rightarrow> outcome" where
  "blocked s =
     (if usr1_due s \<noteq> None then handle_sigs SIGUSR1 s
      else if timer s \<noteq> 0 \<and> \<not> sigmask s SIGALRM then handle_sigs SIGALRM s
      else Hang)"

text \<open>
  The signal of a failed \<^verbatim>\<open>execvp\<close> at the moment a line has been counted: it
  arrives when the count of lines it was due after is reached.
\<close>

definition line_counted :: "state \<Rightarrow> outcome + state" where
  "line_counted s =
     (case usr1_due s of
        None \<Rightarrow> Inr s
      | Some t \<Rightarrow>
          if t \<le> 1 then Inl (handle_sigs SIGUSR1 s)
          else Inr (s\<lparr>usr1_due := Some (t - 1)\<rparr>))"

subsection \<open>Starting the child: \<^verbatim>\<open>cmd_to_argv\<close>, \<^verbatim>\<open>run_new_process\<close>\<close>

text \<open>
  The count of arguments made by the first loop of \<^verbatim>\<open>cmd_to_argv\<close>: one, plus one
  for every space that is not followed by a space.
\<close>

fun count_args :: "string \<Rightarrow> nat" where
  "count_args [] = 1"
| "count_args [c] = (if c = CHR '' '' then 2 else 1)"
| "count_args (c # d # cs) =
     (if c = CHR '' '' \<and> d \<noteq> CHR '' '' then 1 else 0) + count_args (d # cs)"

text \<open>
  The second loop takes \<open>argc\<close> tokens from \<^verbatim>\<open>strtok\<close>. When the tokens run out
  before that (a command ending in a space), \<^verbatim>\<open>strlen\<close> is called on NULL, which is
  undefined: \<open>None\<close>.
\<close>

definition cmd_to_argv :: "string \<Rightarrow> string list option" where
  "cmd_to_argv cmd =
     (let ts = tokens (CHR '' '') cmd []
      in if count_args cmd \<le> length ts then Some (take (count_args cmd) ts) else None)"

definition run_new_process :: "world \<Rightarrow> string \<Rightarrow> state \<Rightarrow> int result" where
  "run_new_process w cmd s =
     (if cmd \<noteq> [] \<and> hd cmd = CHR '' '' then Inr (- 1, s)
      else case cmd_to_argv cmd of
        None \<Rightarrow> Inl Undefined
      | Some argv \<Rightarrow>
          (case start w argv of
             Pipe_failed e \<Rightarrow> Inl (Exit e s)
           | Fork_failed e \<Rightarrow> Inl (Exit e (s\<lparr>pid := - 1\<rparr>))
           | Forked p failure prog \<Rightarrow>
               Inr (0, s\<lparr>pid := p, readPipe := Opened, writePipe := Opened,
                          child := prog, sent := [], input_closed := False,
                          consumed := 0,
                          usr1_due := (if sigmask s SIGUSR1 then None else failure)\<rparr>)))"

subsection \<open>The command handlers\<close>

text \<open>
  \<^verbatim>\<open>WIFEXITED\<close> and \<^verbatim>\<open>WEXITSTATUS\<close> of \<^verbatim>\<open>sys/wait.h\<close>: a status word
  holds the terminating signal in its low seven bits (zero after a normal exit) and
  the exit code in bits 8 to 15.
\<close>

definition WIFEXITED :: "int \<Rightarrow> bool" where
  "WIFEXITED st = (st mod 128 = 0)"

definition WEXITSTATUS :: "int \<Rightarrow> int" where
  "WEXITSTATUS st = (st div 256) mod 256"

text \<open>
  What \<^verbatim>\<open>sscanf(params, "%d%c", &n, &delimiter)\<close> stores when it converts the
  number: \<open>n\<close>, and the character after it, which stays NUL at the end of the text.
\<close>

definition scan_d_c :: "string \<Rightarrow> (int \<times> char) option" where
  "scan_d_c p =
     (case scan_d p of
        None \<Rightarrow> None
      | Some (n, rest) \<Rightarrow> Some (stored_int n, (case rest of [] \<Rightarrow> NUL | c # _ \<Rightarrow> c)))"

text \<open>
  \<^verbatim>\<open>wait\<close> returns once the child has terminated. A child whose \<^verbatim>\<open>execvp\<close>
  failed sends its signal before it does anything else, so a signal still on its way
  arrives before \<^verbatim>\<open>wait\<close> returns.
\<close>

definition handle_exit :: "string option \<Rightarrow> state \<Rightarrow> int result" where
  "handle_exit params s =
     (if sawExit s then Inr (- 1, s)
      else case params of
        None \<Rightarrow> Inr (- 1, s)
      | Some p \<Rightarrow>
          (case scan_d_c p of
             None \<Rightarrow> Inr (- 1, s)
           | Some (n, delimiter) \<Rightarrow>
               if n < 0 \<or> \<not> (delimiter = CHR '' '' \<or> delimiter = NUL) then Inr (- 1, s)
               else
                 let s1 = s\<lparr>sawExit := True\<rparr> in
                 if usr1_due s1 \<noteq> None then Inl (handle_sigs SIGUSR1 s1)
                 else
                   (case terminated (obs s1) of
                      None \<Rightarrow> Inl (blocked s1)
                    | Some st \<Rightarrow>
                        let s2 = s1\<lparr>childStatus := st\<rparr> in
                        if WIFEXITED (childStatus s2) \<and> drop_bit 8 (childStatus s2) = n
                        then Inr (1, s2) else Inr (- 1, s2))))"

text \<open>
  \<^verbatim>\<open>get_line(readPipe)\<close>: the read waits until the child has written a whole line
  or has ended its output.
\<close>

definition read_child :: "state \<Rightarrow> (string option) result" where
  "read_child s =
     (if readPipe s \<noteq> Opened then Inl Undefined
      else
        let avail = drop (consumed s) (written (obs s)) in
        if NL \<in> set avail \<or> out_closed (obs s) then
          (case get_line avail of
             (line, rest) \<Rightarrow> Inr (line, s\<lparr>consumed := consumed s + (length avail - length rest)\<rparr>))
        else Inl (blocked s))"

definition handle_want :: "string option \<Rightarrow> state \<Rightarrow> int result" where
  "handle_want params s =
     (case params of
        None \<Rightarrow> Inr (- 1, s)
      | Some p \<Rightarrow>
          (case read_child s of
             Inl out \<Rightarrow> Inl out
           | Inr (None, s1) \<Rightarrow> Inl Undefined
           | Inr (Some line, s1) \<Rightarrow>
               let s2 = (if echo s1 then s1\<lparr>stdout := stdout s1 @ line @ [NL]\<rparr> else s1) in
               if line \<noteq> p then Inr (- 1, s2) else Inr (2, s2)))"

text \<open>
  \<^verbatim>\<open>fprintf\<close> and \<^verbatim>\<open>fflush\<close> on the pipe to the child. The pipe is the
  program's own, so the one way the write can fail is that no process holds its other
  end any more. Then \<^verbatim>\<open>SIGPIPE\<close> is raised and its handler ends the run; when the
  signal is blocked the write just fails, and \<^verbatim>\<open>handle_send\<close> returns \<open>-1\<close>.
\<close>

definition handle_send :: "string option \<Rightarrow> state \<Rightarrow> int result" where
  "handle_send params s =
     (case params of
        None \<Rightarrow> Inr (- 1, s)
      | Some p \<Rightarrow>
          let message = p @ [NL] in
          if writePipe s \<noteq> Opened then Inl Undefined
          else case printf_noargs message of
            None \<Rightarrow> Inl Undefined
          | Some bytes \<Rightarrow>
              (case stdin_cond (obs s) of
                 Broken \<Rightarrow>
                   if sigmask s SIGPIPE then Inr (- 1, s)
                   else Inl (handle_sigs SIGPIPE s)
               | Accepting \<Rightarrow> Inr (3, s\<lparr>sent := sent s @ bytes\<rparr>)))"

definition handle_exists :: "string option \<Rightarrow> state \<Rightarrow> int result" where
  "handle_exists params s =
     (case params of
        None \<Rightarrow> Inr (- 1, s)
      | Some p \<Rightarrow> if \<not> fs_access (obs s) p then Inr (- 1, s) else Inr (4, s))"

definition handle_size :: "string option \<Rightarrow> state \<Rightarrow> int result" where
  "handle_size params s =
     (case params of
        None \<Rightarrow> Inr (- 1, s)
      | Some p \<Rightarrow>
          (case scan_d p of
             None \<Rightarrow> Inr (- 1, s)
           | Some (n, rest) \<Rightarrow>
               (case scan_s rest of
                  None \<Rightarrow> Inr (- 1, s)
                | Some (extra, _) \<Rightarrow>
                    (case fs_stat (obs s) extra of
                       None \<Rightarrow> Inr (- 1, s)
                     | Some st_size \<Rightarrow>
                         if st_size \<le> stored_int n then Inr (- 1, s) else Inr (5, s)))))"

definition handle_echo :: "string option \<Rightarrow> state \<Rightarrow> int result" where
  "handle_echo params s =
     (case params of
        None \<Rightarrow> Inr (- 1, s)
      | Some p \<Rightarrow>
          (case scan_s p of
             None \<Rightarrow> Inr (- 1, s)
           | Some (extra, _) \<Rightarrow>
               if extra \<noteq> ''on'' \<and> extra \<noteq> ''off'' then Inr (- 1, s)
               else if extra = ''on'' then Inr (6, s\<lparr>echo := True\<rparr>)
               else Inr (6, s\<lparr>echo := False\<rparr>)))"

definition handle_endinput :: "state \<Rightarrow> int result" where
  "handle_endinput s =
     (if writePipe s \<noteq> Opened then Inl Undefined
      else Inr (7, s\<lparr>writePipe := Closed, input_closed := True\<rparr>))"

text \<open>\<^verbatim>\<open>get_line\<close> never gives bytes back, and a line costs at least one byte.\<close>

lemma get_line_loop_length:
  "get_line_loop inp line buf = (r, rest) \<Longrightarrow> length rest \<le> length inp"
proof (induction inp line buf rule: get_line_loop.induct)
  case (1 line buffer)
  then show ?case by (auto split: if_splits)
next
  case (2 c cs line buffer)
  then show ?case by (fastforce split: if_splits)
qed

lemma get_line_Some_shorter:
  assumes "get_line inp = (Some l, rest)"
  shows "length rest < length inp"
proof (cases inp)
  case Nil
  with assms show ?thesis by (simp add: get_line_def)
next
  case (Cons c cs)
  with assms have "get_line_loop (c # cs) [] [] = (Some l, rest)"
    by (simp add: get_line_def)
  then have "length rest \<le> length cs"
    by (auto split: if_splits dest: get_line_loop_length)
  with Cons show ?thesis by simp
qed

lemma handle_send_stdin:
  "handle_send params s = Inr (r, s') \<Longrightarrow> stdin s' = stdin s \<and> script s' = script s"
  by (auto simp: handle_send_def Let_def split: option.splits if_splits wcond.splits)

text \<open>
  The loop of \<^verbatim>\<open>handle_interactive\<close>: lines of standard input are sent to the child
  until one equals the word, or the input ends. What \<^verbatim>\<open>handle_send\<close> returns is
  not looked at.
\<close>

function interactive_loop :: "string \<Rightarrow> state \<Rightarrow> int result" where
  "interactive_loop interactive s =
     (case get_line (stdin s) of
        (None, rest) \<Rightarrow> Inr (8, s\<lparr>stdin := rest\<rparr>)
      | (Some line, rest) \<Rightarrow>
          if line = interactive then Inr (8, s\<lparr>stdin := rest\<rparr>)
          else (case handle_send (Some line) (s\<lparr>stdin := rest\<rparr>) of
                  Inl out \<Rightarrow> Inl out
                | Inr (_, s1) \<Rightarrow> interactive_loop interactive s1))"
  by pat_completeness auto
termination
proof (relation "measure (\<lambda>(w, s). length (stdin s))", goal_cases)
  case 1
  show ?case by simp
next
  case (2 interactive s x1 rest line x2 r s1)
  from 2 have "handle_send (Some line) (s\<lparr>stdin := rest\<rparr>) = Inr (r, s1)"
    by simp
  then have "stdin s1 = rest"
    using handle_send_stdin [of "Some line" "s\<lparr>stdin := rest\<rparr>" r s1] by simp
  moreover from 2 have "length rest < length (stdin s)"
    using get_line_Some_shorter [of "stdin s" line rest] by simp
  ultimately show ?case by simp
qed

definition handle_interactive :: "string option \<Rightarrow> state \<Rightarrow> int result" where
  "handle_interactive params s =
     (case params of
        None \<Rightarrow> Inr (- 1, s)
      | Some p \<Rightarrow>
          (case scan_s p of
             None \<Rightarrow> Inr (- 1, s)
           | Some (interactive, _) \<Rightarrow> interactive_loop interactive s))"

text \<open>\<^verbatim>\<open>alarm\<close> takes an \<^verbatim>\<open>unsigned\<close>: a negative \<open>n\<close> wraps around.\<close>

definition handle_limit :: "string option \<Rightarrow> state \<Rightarrow> int result" where
  "handle_limit params s =
     (if sawLimit s then Inr (- 1, s)
      else case params of
        None \<Rightarrow> Inr (- 1, s)
      | Some p \<Rightarrow>
          (case scan_d_c p of
             None \<Rightarrow> Inr (- 1, s)
           | Some (n, delimiter) \<Rightarrow>
               if delimiter \<noteq> CHR '' '' \<and> delimiter \<noteq> NUL then Inr (- 1, s)
               else Inr (9, s\<lparr>timer := nat (n mod 2 ^ 32), sawLimit := True\<rparr>)))"

text \<open>A NULL command reaches \<^verbatim>\<open>strcmp\<close>, which is undefined.\<close>

definition handle_command :: "string option \<Rightarrow> string option \<Rightarrow> state \<Rightarrow> int result" where
  "handle_command command params s =
     (case command of
        None \<Rightarrow> Inl Undefined
      | Some c \<Rightarrow>
          if c = ''exit'' then handle_exit params s
          else if c = ''want'' then handle_want params s
          else if c = ''send'' then handle_send params s
          else if c = ''exists'' then handle_exists params s
          else if c = ''size>'' then handle_size params s
          else if c = ''echo'' then handle_echo params s
          else if c = ''endinput'' then handle_endinput s
          else if c = ''interactive'' then handle_interactive params s
          else if c = ''limit'' then handle_limit params s
          else Inr (- 1, s))"

subsection \<open>The interpreter: \<^verbatim>\<open>parse_input\<close> and \<^verbatim>\<open>main\<close>\<close>

definition stream_of :: "source \<Rightarrow> state \<Rightarrow> string" where
  "stream_of input s = (case input of Stdin \<Rightarrow> stdin s | Script \<Rightarrow> script s)"

text \<open>\<^verbatim>\<open>get_line(input)\<close> on the stream the script is read from.\<close>

definition read_input :: "source \<Rightarrow> state \<Rightarrow> string option \<times> state" where
  "read_input input s =
     (case get_line (stream_of input s) of
        (line, rest) \<Rightarrow>
          (line, (case input of Stdin \<Rightarrow> s\<lparr>stdin := rest\<rparr> | Script \<Rightarrow> s\<lparr>script := rest\<rparr>)))"

text \<open>
  The split of a command line: the first \<^verbatim>\<open>strtok\<close> ends the command at a space,
  the calls after it take what is left up to a line terminator, and the last token
  they give is the parameter text.
\<close>

definition split_command :: "string \<Rightarrow> string option \<times> string option" where
  "split_command line =
     (case strtok line [CHR '' '', NL] of
        None \<Rightarrow> (None, None)
      | Some (command, rest) \<Rightarrow>
          (Some command, (case tokens NL rest [] of [] \<Rightarrow> None | t # ts \<Rightarrow> Some (last (t # ts)))))"

text \<open>
  The end of a block, once an exit command was seen: the child is signalled, both
  streams are closed, the timer is cancelled, the flags are reset and the block
  counter moves on. Closing a stream that is not open is undefined.
\<close>

definition close_block :: "state \<Rightarrow> outcome + state" where
  "close_block s =
     (let s1 = s\<lparr>kills := kills s @ [pid s]\<rparr>;
          s2 = s1\<lparr>pid := - 1\<rparr>
      in if readPipe s2 \<noteq> Opened then Inl Undefined
         else let s3 = s2\<lparr>readPipe := Closed\<rparr>
         in if writePipe s3 \<noteq> Opened then Inl Undefined
            else let s4 = s3\<lparr>writePipe := Closed, input_closed := True\<rparr>;
                     s5 = s4\<lparr>timer := 0\<rparr>;
                     s6 = s5\<lparr>sawLimit := False, sawExit := False\<rparr>
                 in Inr (s6\<lparr>blockCount := blockCount s6 + 1\<rparr>))"

text \<open>
  The body of the loop of \<^verbatim>\<open>parse_input\<close> for one line. It gives the new value of
  \<open>previousBlock\<close> and the state when the loop goes on. On an invocation line, the
  signal of a child that could not execute its program may arrive before the line is
  counted; a later one arrives between two lines (\<open>loop_step\<close> below), or ends a call
  that waits for the child.
\<close>

definition parse_line :: "world \<Rightarrow> int \<Rightarrow> string \<Rightarrow> state \<Rightarrow> int result" where
  "parse_line w previousBlock line s =
     (if \<not> block_end line then
        (if previousBlock \<noteq> blockCount s then
           (case run_new_process w line s of
              Inl out \<Rightarrow> Inl out
            | Inr (r, s1) \<Rightarrow>
                if r \<noteq> 0 then Inl (throw_error ERR_COMMAND (lineCount s1) [] s1)
                else if usr1_due s1 = Some 0 then Inl (handle_sigs SIGUSR1 s1)
                else Inr (blockCount s, s1\<lparr>lineCount := lineCount s1 + 1\<rparr>))
         else
           (case split_command line of
              (command, params) \<Rightarrow>
                (case handle_command command params s of
                   Inl out \<Rightarrow> Inl out
                 | Inr (r, s1) \<Rightarrow>
                     if r = - 1 then Inl (throw_error ERR_COMMAND (lineCount s1) [] s1)
                     else Inr (previousBlock, s1\<lparr>lineCount := lineCount s1 + 1\<rparr>))))
      else
        (if \<not> sawExit s then Inl (throw_error ERR_BLOCK (blockCount s) [] s)
         else case close_block s of
           Inl out \<Rightarrow> Inl out
         | Inr s1 \<Rightarrow> Inr (blockCount s, s1\<lparr>lineCount := lineCount s1 + 1\<rparr>)))"

text \<open>
  One round of the loop: the body, and then, the line being counted, the signal of a
  failed \<^verbatim>\<open>execvp\<close> if it is due.
\<close>

definition loop_step :: "world \<Rightarrow> int \<Rightarrow> string \<Rightarrow> state \<Rightarrow> int result" where
  "loop_step w previousBlock line s =
     (case parse_line w previousBlock line s of
        Inl out \<Rightarrow> Inl out
      | Inr (previousBlock', s1) \<Rightarrow>
          (case line_counted s1 of
             Inl out \<Rightarrow> Inl out
           | Inr s2 \<Rightarrow> Inr (previousBlock', s2)))"

declare interactive_loop.simps [simp del]

lemma interactive_loop_streams:
  "interactive_loop word s = Inr (r, s') \<Longrightarrow>
     length (stdin s') \<le> length (stdin s) \<and> script s' = script s"
proof (induction word s rule: interactive_loop.induct)
  case (1 word s)
  note run = "1.prems" [unfolded interactive_loop.simps [of word s]]
  obtain l rest where g: "get_line (stdin s) = (l, rest)"
    by (cases "get_line (stdin s)")
  have le: "length rest \<le> length (stdin s)"
    using g get_line_loop_length [of "stdin s" "[]" "[]" l rest] by (simp add: get_line_def)
  show ?case
  proof (cases l)
    case None
    with run g le show ?thesis by auto
  next
    case (Some line)
    show ?thesis
    proof (cases "line = word")
      case True
      with run g le Some show ?thesis by auto
    next
      case False
      from run g Some False obtain r1 s1 where
        hs: "handle_send (Some line) (s\<lparr>stdin := rest\<rparr>) = Inr (r1, s1)"
        and rec: "interactive_loop word s1 = Inr (r, s')"
        by (auto split: sum.splits)
      from hs have eq: "stdin s1 = rest" "script s1 = script s"
        using handle_send_stdin [OF hs] by simp_all
      have "length (stdin s') \<le> length (stdin s1) \<and> script s' = script s1"
        using "1.IH" [of l rest line "(r1, s1)" r1 s1] g Some False hs rec by simp
      with eq le show ?thesis by simp
    qed
  qed
qed

lemma read_child_streams:
  "read_child s = Inr (l, s') \<Longrightarrow> stdin s' = stdin s \<and> script s' = script s"
  by (auto simp: read_child_def Let_def split: if_splits prod.splits)

lemma handle_command_streams:
  assumes "handle_command command params s = Inr (r, s')"
  shows "length (stdin s') \<le> length (stdin s) \<and> script s' = script s"
proof -
  have ex: "handle_exit params s = Inr (r, s') \<Longrightarrow> ?thesis"
    by (auto simp: handle_exit_def Let_def split: if_splits option.splits prod.splits)
  have wa: "handle_want params s = Inr (r, s') \<Longrightarrow> ?thesis"
    by (auto simp: handle_want_def Let_def split: if_splits option.splits prod.splits sum.splits
        dest: read_child_streams)
  have se: "handle_send params s = Inr (r, s') \<Longrightarrow> ?thesis"
    by (auto dest: handle_send_stdin)
  have exi: "handle_exists params s = Inr (r, s') \<Longrightarrow> ?thesis"
    by (auto simp: handle_exists_def split: if_splits option.splits)
  have si: "handle_size params s = Inr (r, s') \<Longrightarrow> ?thesis"
    by (auto simp: handle_size_def split: if_splits option.splits prod.splits)
  have ec: "handle_echo params s = Inr (r, s') \<Longrightarrow> ?thesis"
    by (auto simp: handle_echo_def split: if_splits option.splits prod.splits)
  have en: "handle_endinput s = Inr (r, s') \<Longrightarrow> ?thesis"
    by (auto simp: handle_endinput_def split: if_splits)
  have it: "handle_interactive params s = Inr (r, s') \<Longrightarrow> ?thesis"
    by (auto simp: handle_interactive_def split: option.splits prod.splits
        dest: interactive_loop_streams)
  have li: "handle_limit params s = Inr (r, s') \<Longrightarrow> ?thesis"
    by (auto simp: handle_limit_def split: if_splits option.splits prod.splits)
  from assms show ?thesis
    unfolding handle_command_def
    using ex wa se exi si ec en it li
    by (auto split: option.splits if_splits)
qed

lemma run_new_process_streams:
  "run_new_process w cmd s = Inr (r, s') \<Longrightarrow> stdin s' = stdin s \<and> script s' = script s"
  by (auto simp: run_new_process_def split: if_splits option.splits launch.splits)

lemma close_block_streams:
  "close_block s = Inr s' \<Longrightarrow> stdin s' = stdin s \<and> script s' = script s"
  by (auto simp: close_block_def Let_def split: if_splits)

lemma parse_line_streams:
  assumes "parse_line w pb line s = Inr (pb', s')"
  shows "length (stream_of input s') \<le> length (stream_of input s)"
  using assms
  by (cases input)
     (auto simp: parse_line_def stream_of_def Let_def
        split: if_splits sum.splits prod.splits
        dest: run_new_process_streams handle_command_streams close_block_streams)

lemma line_counted_frame:
  "line_counted s = Inr s' \<Longrightarrow> \<exists>d. s' = s\<lparr>usr1_due := d\<rparr>"
  by (auto simp: line_counted_def split: option.splits if_splits
      intro: exI [of _ "usr1_due s"])

lemma loop_step_parse_line:
  assumes "loop_step w pb line s = Inr (pb', s')"
  shows "\<exists>s1 d. parse_line w pb line s = Inr (pb', s1) \<and> s' = s1\<lparr>usr1_due := d\<rparr>"
proof -
  from assms obtain s1 where p: "parse_line w pb line s = Inr (pb', s1)"
    and c: "line_counted s1 = Inr s'"
    by (auto simp: loop_step_def split: sum.splits)
  from line_counted_frame [OF c] p show ?thesis
    by blast
qed

lemma loop_step_streams:
  assumes "loop_step w pb line s = Inr (pb', s')"
  shows "length (stream_of input s') \<le> length (stream_of input s)"
proof -
  from loop_step_parse_line [OF assms] obtain s1 d where
    p: "parse_line w pb line s = Inr (pb', s1)" and s': "s' = s1\<lparr>usr1_due := d\<rparr>"
    by blast
  from s' have "stream_of input s' = stream_of input s1"
    by (cases input) (simp_all add: stream_of_def)
  with parse_line_streams [OF p, of input] show ?thesis
    by simp
qed

lemma read_input_shorter:
  assumes "read_input input s = (Some line, s')"
  shows "length (stream_of input s') < length (stream_of input s)"
  using assms
  by (cases input)
     (auto simp: read_input_def stream_of_def split: prod.splits dest: get_line_Some_shorter)

text \<open>
  The loop of \<^verbatim>\<open>parse_input\<close>. When \<^verbatim>\<open>get_line\<close> returns NULL the function
  returns, whatever signal is still on its way.
\<close>

function parse_input :: "world \<Rightarrow> source \<Rightarrow> int \<Rightarrow> state \<Rightarrow> outcome + state" where
  "parse_input w input previousBlock s =
     (case read_input input s of
        (None, s0) \<Rightarrow> Inr s0
      | (Some line, s0) \<Rightarrow>
          (case loop_step w previousBlock line s0 of
             Inl out \<Rightarrow> Inl out
           | Inr (previousBlock', s1) \<Rightarrow> parse_input w input previousBlock' s1))"
  by pat_completeness auto
termination
proof (relation "measure (\<lambda>(w, input, pb, s). length (stream_of input s))", goal_cases)
  case 1
  show ?case by simp
next
  case (2 w input previousBlock s x1 s0 line x2 pb' s1)
  then have "read_input input s = (Some line, s0)"
    and "loop_step w previousBlock line s0 = Inr (pb', s1)"
    by simp_all
  then show ?case
    using read_input_shorter [of input s line s0] loop_step_streams [of w previousBlock line s0 pb' s1 input]
    by simp
qed

declare parse_input.simps [simp del]


text \<open>
  \<^verbatim>\<open>get_input_source\<close>: the script is standard input when no argument is given,
  and the file named by the first argument otherwise.
\<close>

definition get_input_source :: "world \<Rightarrow> string list \<Rightarrow> state \<Rightarrow> outcome + (source \<times> state)" where
  "get_input_source w argv s =
     (case argv of
        [] \<Rightarrow> Inl Undefined
      | [_] \<Rightarrow> Inr (Stdin, s)
      | _ # path # _ \<Rightarrow>
          (case fopen_r w path of
             None \<Rightarrow> Inl (throw_error ERR_OPEN 0 path s)
           | Some bytes \<Rightarrow> Inr (Script, s\<lparr>script := bytes\<rparr>)))"

text \<open>
  The state in which \<^verbatim>\<open>main\<close> starts: the initial values of the globals, and the
  signal mask of the environment. \<^verbatim>\<open>signal\<close> installs \<^verbatim>\<open>handle_sigs\<close> for the
  four signals and leaves the mask as it is.
\<close>

definition startup :: "world \<Rightarrow> string \<Rightarrow> state" where
  "startup w stdin_bytes = (init [] stdin_bytes)\<lparr>sigmask := inherited_mask w\<rparr>"

text \<open>
  \<^verbatim>\<open>main\<close>, from the argument vector and the bytes of standard input to the way the
  run ends. Returning 0 from \<^verbatim>\<open>main\<close> is \<open>Exit 0\<close>.
\<close>

definition main :: "world \<Rightarrow> string list \<Rightarrow> string \<Rightarrow> outcome" where
  "main w argv stdin_bytes =
     (case get_input_source w argv (startup w stdin_bytes) of
        Inl out \<Rightarrow> out
      | Inr (input, s) \<Rightarrow>
          (case parse_input w input 0 s of
             Inl out \<Rightarrow> out
           | Inr s1 \<Rightarrow> Exit 0 s1))"

section \<open>Notions the claims are stated with\<close>

subsection \<open>Where a run stands after some lines\<close>

text \<open>
  The loop of \<^verbatim>\<open>parse_input\<close> unrolled \<open>n\<close> times: the value of \<open>previousBlock\<close>
  and the state at the head of the loop once \<open>n\<close> lines were read and handled, or
  \<open>None\<close> when the run ended before that.
\<close>

fun after_lines :: "world \<Rightarrow> source \<Rightarrow> nat \<Rightarrow> int \<Rightarrow> state \<Rightarrow> (int \<times> state) option" where
  "after_lines w input 0 previousBlock s = Some (previousBlock, s)"
| "after_lines w input (Suc n) previousBlock s =
     (case read_input input s of
        (None, _) \<Rightarrow> None
      | (Some line, s0) \<Rightarrow>
          (case loop_step w previousBlock line s0 of
             Inl _ \<Rightarrow> None
           | Inr (previousBlock', s1) \<Rightarrow> after_lines w input n previousBlock' s1))"

text \<open>
  The same for a run of \<^verbatim>\<open>main\<close>, with the stream the script is read from.
\<close>

definition reached :: "world \<Rightarrow> string list \<Rightarrow> string \<Rightarrow> nat \<Rightarrow> (source \<times> int \<times> state) option" where
  "reached w argv stdin_bytes n =
     (case get_input_source w argv (startup w stdin_bytes) of
        Inl _ \<Rightarrow> None
      | Inr (input, s) \<Rightarrow>
          (case after_lines w input n 0 s of
             None \<Rightarrow> None
           | Some (previousBlock, s1) \<Rightarrow> Some (input, previousBlock, s1)))"

text \<open>
  The lines read in those \<open>n\<close> rounds of the loop, and how many blocks have ended in a
  run of \<^verbatim>\<open>main\<close> after \<open>n\<close> lines: a block ends with each blank line.
\<close>

fun lines_read :: "world \<Rightarrow> source \<Rightarrow> nat \<Rightarrow> int \<Rightarrow> state \<Rightarrow> string list" where
  "lines_read w input 0 previousBlock s = []"
| "lines_read w input (Suc n) previousBlock s =
     (case read_input input s of
        (None, _) \<Rightarrow> []
      | (Some line, s0) \<Rightarrow>
          line # (case loop_step w previousBlock line s0 of
                    Inl _ \<Rightarrow> []
                  | Inr (previousBlock', s1) \<Rightarrow> lines_read w input n previousBlock' s1))"

definition blocks_ended :: "world \<Rightarrow> string list \<Rightarrow> string \<Rightarrow> nat \<Rightarrow> nat" where
  "blocks_ended w argv stdin_bytes n =
     (case get_input_source w argv (startup w stdin_bytes) of
        Inl _ \<Rightarrow> 0
      | Inr (input, s) \<Rightarrow> length (filter block_end (lines_read w input n 0 s)))"

text \<open>
  The test the loop itself makes for "this line starts a block" is
  \<open>previousBlock \<noteq> blockCount\<close>: a block is open at the head of the loop when the two
  are equal. \<open>loop_inv\<close> is what holds at every head of the loop: when no block is
  open, no exit command is on record and no child is alive.
\<close>

definition block_open :: "int \<Rightarrow> state \<Rightarrow> bool" where
  "block_open previousBlock s = (previousBlock = blockCount s)"

definition loop_inv :: "int \<Rightarrow> state \<Rightarrow> bool" where
  "loop_inv previousBlock s =
     (block_open previousBlock s \<or> (\<not> sawExit s \<and> pid s = - 1 \<and> previousBlock < blockCount s))"

subsection \<open>Parameters and exit codes\<close>

text \<open>
  The child terminated normally with exit code \<open>n\<close>, read off the status word that
  \<^verbatim>\<open>wait\<close> stored; the two ways a parameter text can be malformed for
  \<^verbatim>\<open>sscanf(params, "%d%c", ...)\<close>: no number at its start, or a number followed by
  something other than a space or the end; the number that a parameter text which is
  not malformed denotes, as written; and the numbers that fit an \<^verbatim>\<open>int\<close>.
\<close>

definition exited_with :: "int \<Rightarrow> int \<Rightarrow> bool" where
  "exited_with st n = (WIFEXITED st \<and> WEXITSTATUS st = n)"

definition no_number :: "string \<Rightarrow> bool" where
  "no_number p = (scan_d p = None)"

definition bad_delimiter :: "string \<Rightarrow> bool" where
  "bad_delimiter p =
     (case scan_d p of
        None \<Rightarrow> False
      | Some (n, rest) \<Rightarrow>
          (case rest of [] \<Rightarrow> False | c # _ \<Rightarrow> c \<noteq> CHR '' '' \<and> c \<noteq> NUL))"

definition number_of :: "string \<Rightarrow> int option" where
  "number_of p =
     (case scan_d p of
        None \<Rightarrow> None
      | Some (n, rest) \<Rightarrow>
          (case rest of
             [] \<Rightarrow> Some n
           | c # _ \<Rightarrow> if c = CHR '' '' \<or> c = NUL then Some n else None))"

definition INT_MIN :: int where "INT_MIN = - (2 ^ 31)"
definition INT_MAX :: int where "INT_MAX = 2 ^ 31 - 1"

definition fits_int :: "int \<Rightarrow> bool" where
  "fits_int n = (INT_MIN \<le> n \<and> n \<le> INT_MAX)"

subsection \<open>Well-formed scripts and successful commands\<close>

text \<open>
  The shape C1 asks of a script, read off its lines: every block is an invocation
  line, command lines with exactly one exit command among them, and a terminating
  blank line. \<open>in_block\<close> and \<open>seen_exit\<close> say where in a block the lines start.
\<close>

definition command_word :: "string \<Rightarrow> string option" where
  "command_word line = fst (split_command line)"

fun well_formed :: "bool \<Rightarrow> bool \<Rightarrow> string list \<Rightarrow> bool" where
  "well_formed in_block seen_exit [] = (\<not> in_block)"
| "well_formed in_block seen_exit (l # ls) =
     (if block_end l then in_block \<and> seen_exit \<and> well_formed False False ls
      else if \<not> in_block then well_formed True False ls
      else if command_word l = Some ''exit'' then \<not> seen_exit \<and> well_formed True True ls
      else well_formed True seen_exit ls)"

text \<open>
  Every command succeeds: along the run over the next \<open>n\<close> lines, no invocation line
  and no command line ends the run, and no signal of a program that could not be
  executed arrives. Nothing is asked of a blank line, which is not a command.
\<close>

fun commands_succeed :: "world \<Rightarrow> source \<Rightarrow> nat \<Rightarrow> int \<Rightarrow> state \<Rightarrow> bool" where
  "commands_succeed w input 0 previousBlock s = True"
| "commands_succeed w input (Suc n) previousBlock s =
     (case read_input input s of
        (None, _) \<Rightarrow> True
      | (Some line, s0) \<Rightarrow>
          (case parse_line w previousBlock line s0 of
             Inl _ \<Rightarrow> block_end line
           | Inr (previousBlock', s1) \<Rightarrow>
               (case line_counted s1 of
                  Inl _ \<Rightarrow> False
                | Inr s2 \<Rightarrow> commands_succeed w input n previousBlock' s2)))"

text \<open>
  A line as \<^verbatim>\<open>get_line\<close> returns it holds neither a NUL nor a line terminator.
\<close>

definition plain :: "string \<Rightarrow> bool" where
  "plain l = (NUL \<notin> set l \<and> NL \<notin> set l)"

text \<open>
  How \<open>in_block\<close> and \<open>seen_exit\<close> show in the state at the head of the loop.
\<close>

definition in_step :: "bool \<Rightarrow> bool \<Rightarrow> int \<Rightarrow> state \<Rightarrow> bool" where
  "in_step in_block seen_exit previousBlock s =
     (if in_block
      then previousBlock = blockCount s \<and> sawExit s = seen_exit
             \<and> readPipe s = Opened \<and> writePipe s = Opened
      else previousBlock \<noteq> blockCount s \<and> \<not> sawExit s)"

subsection \<open>Programs and scripts to run the model on\<close>

definition no_file :: "string \<Rightarrow> bool" where "no_file = (\<lambda>_. False)"

definition no_size :: "string \<Rightarrow> int option" where "no_size = (\<lambda>_. None)"

text \<open>
  \<^verbatim>\<open>cat\<close>: copies its input to its output and exits with 0 when the input ends.
\<close>

definition cat_program :: program where
  "cat_program bytes closed =
     \<lparr>written = bytes, out_closed = closed,
      stdin_cond = (if closed then Broken else Accepting),
      terminated = (if closed then Some 0 else None),
      fs_access = no_file, fs_stat = no_size\<rparr>"

text \<open>
  A program that prints the line \<^verbatim>\<open>OK\<close> and exits with 0.
\<close>

definition ok_program :: program where
  "ok_program bytes closed =
     \<lparr>written = ''OK'' @ [NL], out_closed = True, stdin_cond = Broken,
      terminated = Some 0, fs_access = no_file, fs_stat = no_size\<rparr>"

text \<open>
  The same without the line terminator: \<^verbatim>\<open>printf("OK")\<close>, then exit.
\<close>

definition bare_program :: program where
  "bare_program bytes closed =
     \<lparr>written = ''OK'', out_closed = True, stdin_cond = Broken,
      terminated = Some 0, fs_access = no_file, fs_stat = no_size\<rparr>"

text \<open>
  The text of a script: every line with its line terminator.
\<close>

definition text_of :: "string list \<Rightarrow> string" where
  "text_of ls = concat (map (\<lambda>l. l @ [NL]) ls)"

text \<open>
  A world with these programs, and one file, \<^verbatim>\<open>script\<close>, holding the given bytes.
  No signal is blocked. Any other program cannot be executed: \<^verbatim>\<open>late\<close> is one
  whose signal arrives when three lines have been counted, and the signal of every
  other one arrives as soon as the invocation line is counted.
\<close>

definition demo_world :: "string \<Rightarrow> world" where
  "demo_world bytes =
     \<lparr>fopen_r = (\<lambda>path. if path = ''script'' then Some bytes else None),
      start = (\<lambda>argv. if argv = [''cat''] then Forked 100 None cat_program
                        else if argv = [''ok''] then Forked 101 None ok_program
                        else if argv = [''bare''] then Forked 102 None bare_program
                        else if argv = [''late''] then Forked 103 (Some 3) idle
                        else Forked 104 (Some 1) idle),
      inherited_mask = (\<lambda>_. False)\<rparr>"

definition demo_argv :: "string list" where
  "demo_argv = [''suspect'', ''script'']"

text \<open>
  The signal mask of a run that was started with \<^verbatim>\<open>SIGPIPE\<close> blocked: the mask is
  inherited through \<^verbatim>\<open>fork\<close> and \<^verbatim>\<open>execve\<close>, and the program never unblocks
  a signal.
\<close>

definition sigpipe_blocked :: "signal \<Rightarrow> bool" where
  "sigpipe_blocked sg = (sg = SIGPIPE)"

text \<open>
  The state right after a program was started as the first block of a script.
\<close>

definition started :: "program \<Rightarrow> string \<Rightarrow> state" where
  "started prog stdin_bytes =
     (init [] stdin_bytes)\<lparr>lineCount := 2, readPipe := Opened, writePipe := Opened,
                            pid := 100, child := prog\<rparr>"

section \<open>Facts about the program\<close>

lemmas run_defs =
  reached_def get_input_source_def startup_def init_def read_input_def stream_of_def
  get_line_def loop_step_def line_counted_def
  parse_line_def block_end_def run_new_process_def cmd_to_argv_def split_command_def
  strtok_def handle_command_def handle_exit_def handle_want_def handle_send_def
  handle_exists_def handle_size_def handle_echo_def handle_endinput_def
  handle_interactive_def handle_limit_def read_child_def close_block_def
  throw_error_def diagnostic_def blocked_def obs_def scan_d_c_def scan_d_def scan_s_def
  isspace_def isdigit_def digit_val_def stored_int_def strtol_value_def
  LONG_MIN_def LONG_MAX_def
  WIFEXITED_def append_to_line_def cstr_def BUFF_LEN_def NL_def NUL_def
  ERR_COMMAND_def ERR_BLOCK_def ERR_LIMIT_def ERR_OPEN_def dec_int_def digit_char_def
  demo_world_def demo_argv_def cat_program_def ok_program_def bare_program_def
  sigpipe_blocked_def text_of_def Let_def

subsection \<open>The loop\<close>

lemma parse_input_step:
  assumes "read_input input s = (Some line, s0)"
  shows "parse_input w input pb s =
           (case loop_step w pb line s0 of
              Inl out \<Rightarrow> Inl out
            | Inr (pb', s1) \<Rightarrow> parse_input w input pb' s1)"
  using assms by (simp add: parse_input.simps [of w input pb s])

lemma parse_input_eof:
  assumes "read_input input s = (None, s0)"
  shows "parse_input w input pb s = Inr s0"
  using assms by (simp add: parse_input.simps [of w input pb s])

lemma parse_input_after_lines:
  "after_lines w input n pb s = Some (pb', s') \<Longrightarrow>
     parse_input w input pb s = parse_input w input pb' s'"
proof (induction n arbitrary: pb s)
  case 0
  then show ?case by simp
next
  case (Suc n)
  obtain l s0 where r: "read_input input s = (l, s0)"
    by (cases "read_input input s")
  with Suc.prems obtain line where l: "l = Some line"
    by (cases l) auto
  from Suc.prems r l obtain pb1 s1 where
    p: "loop_step w pb line s0 = Inr (pb1, s1)"
    and a: "after_lines w input n pb1 s1 = Some (pb', s')"
    by (auto split: sum.splits)
  have "parse_input w input pb s = parse_input w input pb1 s1"
    using parse_input_step [of input s line s0 w pb] r l p by simp
  with Suc.IH [OF a] show ?case by simp
qed

lemma main_reached:
  assumes "reached w argv stdin_bytes n = Some (input, pb, s)"
  shows "main w argv stdin_bytes =
           (case parse_input w input pb s of Inl out \<Rightarrow> out | Inr s1 \<Rightarrow> Exit 0 s1)"
proof -
  from assms obtain s0 where
    g: "get_input_source w argv (startup w stdin_bytes) = Inr (input, s0)"
    and a: "after_lines w input n 0 s0 = Some (pb, s)"
    by (auto simp: reached_def split: sum.splits option.splits)
  from parse_input_after_lines [OF a] g show ?thesis
    by (simp add: main_def)
qed

lemma read_input_exhausted:
  assumes "stream_of input s = []"
  shows "read_input input s = (None, s)"
proof (cases input)
  case Stdin
  with assms have "stdin s = []" by (simp add: stream_of_def)
  then have "s\<lparr>stdin := []\<rparr> = s\<lparr>stdin := stdin s\<rparr>" by simp
  then have "s\<lparr>stdin := []\<rparr> = s" by simp
  with Stdin \<open>stdin s = []\<close> show ?thesis
    by (simp add: read_input_def stream_of_def get_line_def)
next
  case Script
  with assms have "script s = []" by (simp add: stream_of_def)
  then have "s\<lparr>script := []\<rparr> = s\<lparr>script := script s\<rparr>" by simp
  then have "s\<lparr>script := []\<rparr> = s" by simp
  with Script \<open>script s = []\<close> show ?thesis
    by (simp add: read_input_def stream_of_def get_line_def)
qed

text \<open>
  A blank line: \<^verbatim>\<open>get_line\<close> gives the empty string for a lone line terminator.
\<close>

lemma read_input_blank:
  assumes "stream_of input s = NL # rest"
  shows "\<exists>s0. read_input input s = (Some [], s0) \<and> stream_of input s0 = rest
           \<and> stdout s0 = stdout s \<and> kills s0 = kills s \<and> pid s0 = pid s
           \<and> blockCount s0 = blockCount s \<and> sawExit s0 = sawExit s"
  using assms
  by (cases input)
     (simp_all add: read_input_def stream_of_def get_line_def append_to_line_def cstr_def)

lemma parse_line_blank_no_exit:
  assumes "block_end line" and "\<not> sawExit s"
  shows "parse_line w pb line s = Inl (throw_error ERR_BLOCK (blockCount s) [] s)"
  using assms by (simp add: parse_line_def)

lemma loop_step_blank_no_exit:
  assumes "block_end line" and "\<not> sawExit s"
  shows "loop_step w pb line s = Inl (throw_error ERR_BLOCK (blockCount s) [] s)"
  using parse_line_blank_no_exit [OF assms] by (simp add: loop_step_def)

lemma throw_error_block:
  "\<exists>s'. throw_error ERR_BLOCK i str s = Exit 2 s'
      \<and> stdout s' = stdout s @ ''Block '' @ dec_int i @ '' ended without an exit.'' @ [NL]
      \<and> kills s' = (if pid s = - 1 then kills s else kills s @ [pid s])"
  by (simp add: throw_error_def diagnostic_def ERR_BLOCK_def ERR_COMMAND_def Let_def)

lemma read_input_frame:
  assumes "read_input input s = (l, s0)"
  shows "stdout s0 = stdout s \<and> kills s0 = kills s \<and> pid s0 = pid s
           \<and> blockCount s0 = blockCount s \<and> sawExit s0 = sawExit s
           \<and> lineCount s0 = lineCount s"
  using assms by (cases input) (auto simp: read_input_def split: prod.splits)

subsection \<open>What the commands leave alone\<close>

lemma handle_send_frame:
  "handle_send params s = Inr (r, s') \<Longrightarrow> \<exists>b. s' = s\<lparr>sent := b\<rparr>"
  by (cases "stdin_cond (obs s)")
     (auto simp: handle_send_def Let_def split: option.splits if_splits intro: exI [of _ "sent s"])

lemma interactive_loop_frame:
  "interactive_loop word s = Inr (r, s') \<Longrightarrow> \<exists>b i. s' = s\<lparr>sent := b, stdin := i\<rparr>"
proof (induction word s rule: interactive_loop.induct)
  case (1 word s)
  note run = "1.prems" [unfolded interactive_loop.simps [of word s]]
  obtain l rest where g: "get_line (stdin s) = (l, rest)"
    by (cases "get_line (stdin s)")
  show ?case
  proof (cases l)
    case None
    with run g have "s' = s\<lparr>sent := sent s, stdin := rest\<rparr>" by auto
    then show ?thesis by blast
  next
    case (Some line)
    show ?thesis
    proof (cases "line = word")
      case True
      with run g Some have "s' = s\<lparr>sent := sent s, stdin := rest\<rparr>" by auto
      then show ?thesis by blast
    next
      case False
      from run g Some False obtain r1 s1 where
        hs: "handle_send (Some line) (s\<lparr>stdin := rest\<rparr>) = Inr (r1, s1)"
        and rec: "interactive_loop word s1 = Inr (r, s')"
        by (auto split: sum.splits)
      from handle_send_frame [OF hs] obtain b where s1: "s1 = s\<lparr>stdin := rest, sent := b\<rparr>"
        by auto
      from "1.IH" [of l rest line "(r1, s1)" r1 s1] g Some False hs rec
      obtain b' i where "s' = s1\<lparr>sent := b', stdin := i\<rparr>" by auto
      with s1 have "s' = s\<lparr>sent := b', stdin := i\<rparr>" by simp
      then show ?thesis by blast
    qed
  qed
qed

text \<open>
  No command moves the block counter, only \<^verbatim>\<open>exit\<close> sets its flag, and only
  \<^verbatim>\<open>endinput\<close> closes a stream.
\<close>

lemma handle_command_blockCount:
  assumes "handle_command command params s = Inr (r, s')"
  shows "blockCount s' = blockCount s"
proof -
  have ex: "handle_exit params s = Inr (r, s') \<Longrightarrow> ?thesis"
    by (auto simp: handle_exit_def Let_def split: if_splits option.splits prod.splits)
  have wa: "handle_want params s = Inr (r, s') \<Longrightarrow> ?thesis"
    by (auto simp: handle_want_def read_child_def Let_def
        split: if_splits option.splits prod.splits sum.splits)
  have se: "handle_send params s = Inr (r, s') \<Longrightarrow> ?thesis"
    by (auto dest: handle_send_frame)
  have exi: "handle_exists params s = Inr (r, s') \<Longrightarrow> ?thesis"
    by (auto simp: handle_exists_def split: if_splits option.splits)
  have si: "handle_size params s = Inr (r, s') \<Longrightarrow> ?thesis"
    by (auto simp: handle_size_def split: if_splits option.splits prod.splits)
  have ec: "handle_echo params s = Inr (r, s') \<Longrightarrow> ?thesis"
    by (auto simp: handle_echo_def split: if_splits option.splits prod.splits)
  have en: "handle_endinput s = Inr (r, s') \<Longrightarrow> ?thesis"
    by (auto simp: handle_endinput_def split: if_splits)
  have it: "handle_interactive params s = Inr (r, s') \<Longrightarrow> ?thesis"
    by (auto simp: handle_interactive_def split: option.splits prod.splits
        dest: interactive_loop_frame)
  have li: "handle_limit params s = Inr (r, s') \<Longrightarrow> ?thesis"
    by (auto simp: handle_limit_def split: if_splits option.splits prod.splits)
  from assms show ?thesis
    unfolding handle_command_def
    using ex wa se exi si ec en it li
    by (auto split: option.splits if_splits)
qed

lemma handle_command_sawExit:
  assumes "handle_command (Some c) params s = Inr (r, s')" and "c \<noteq> ''exit''"
  shows "sawExit s' = sawExit s"
proof -
  have wa: "handle_want params s = Inr (r, s') \<Longrightarrow> ?thesis"
    by (auto simp: handle_want_def read_child_def Let_def
        split: if_splits option.splits prod.splits sum.splits)
  have se: "handle_send params s = Inr (r, s') \<Longrightarrow> ?thesis"
    by (auto dest: handle_send_frame)
  have exi: "handle_exists params s = Inr (r, s') \<Longrightarrow> ?thesis"
    by (auto simp: handle_exists_def split: if_splits option.splits)
  have si: "handle_size params s = Inr (r, s') \<Longrightarrow> ?thesis"
    by (auto simp: handle_size_def split: if_splits option.splits prod.splits)
  have ec: "handle_echo params s = Inr (r, s') \<Longrightarrow> ?thesis"
    by (auto simp: handle_echo_def split: if_splits option.splits prod.splits)
  have en: "handle_endinput s = Inr (r, s') \<Longrightarrow> ?thesis"
    by (auto simp: handle_endinput_def split: if_splits)
  have it: "handle_interactive params s = Inr (r, s') \<Longrightarrow> ?thesis"
    by (auto simp: handle_interactive_def split: option.splits prod.splits
        dest: interactive_loop_frame)
  have li: "handle_limit params s = Inr (r, s') \<Longrightarrow> ?thesis"
    by (auto simp: handle_limit_def split: if_splits option.splits prod.splits)
  from assms show ?thesis
    unfolding handle_command_def
    using wa se exi si ec en it li
    by (auto split: if_splits)
qed

lemma handle_command_pipes:
  assumes "handle_command command params s = Inr (r, s')" and "command \<noteq> Some ''endinput''"
  shows "readPipe s' = readPipe s \<and> writePipe s' = writePipe s"
proof -
  have ex: "handle_exit params s = Inr (r, s') \<Longrightarrow> ?thesis"
    by (auto simp: handle_exit_def Let_def split: if_splits option.splits prod.splits)
  have wa: "handle_want params s = Inr (r, s') \<Longrightarrow> ?thesis"
    by (auto simp: handle_want_def read_child_def Let_def
        split: if_splits option.splits prod.splits sum.splits)
  have se: "handle_send params s = Inr (r, s') \<Longrightarrow> ?thesis"
    by (auto dest: handle_send_frame)
  have exi: "handle_exists params s = Inr (r, s') \<Longrightarrow> ?thesis"
    by (auto simp: handle_exists_def split: if_splits option.splits)
  have si: "handle_size params s = Inr (r, s') \<Longrightarrow> ?thesis"
    by (auto simp: handle_size_def split: if_splits option.splits prod.splits)
  have ec: "handle_echo params s = Inr (r, s') \<Longrightarrow> ?thesis"
    by (auto simp: handle_echo_def split: if_splits option.splits prod.splits)
  have it: "handle_interactive params s = Inr (r, s') \<Longrightarrow> ?thesis"
    by (auto simp: handle_interactive_def split: option.splits prod.splits
        dest: interactive_loop_frame)
  have li: "handle_limit params s = Inr (r, s') \<Longrightarrow> ?thesis"
    by (auto simp: handle_limit_def split: if_splits option.splits prod.splits)
  from assms show ?thesis
    unfolding handle_command_def
    using ex wa se exi si ec it li
    by (auto split: option.splits if_splits)
qed

lemma handle_exit_passed:
  assumes "handle_command (Some ''exit'') params s = Inr (r, s')" and "r \<noteq> - 1"
  shows "sawExit s'"
  using assms
  by (auto simp: handle_command_def handle_exit_def Let_def
      split: if_splits option.splits prod.splits)

lemma obs_flags [simp]:
  "obs (s\<lparr>sawExit := b\<rparr>) = obs s"
  by (simp add: obs_def)

subsection \<open>The invariant of the loop\<close>

lemma parse_line_inv:
  assumes "parse_line w pb line s = Inr (pb', s')"
  shows "loop_inv pb' s'"
proof (cases "block_end line")
  case True
  with assms obtain s1 where c: "close_block s = Inr s1"
    and s': "s' = s1\<lparr>lineCount := lineCount s1 + 1\<rparr>" and pb': "pb' = blockCount s"
    by (auto simp: parse_line_def split: if_splits sum.splits)
  from c have "\<not> sawExit s1 \<and> pid s1 = - 1 \<and> blockCount s1 = blockCount s + 1"
    by (auto simp: close_block_def Let_def split: if_splits)
  with s' pb' show ?thesis by (simp add: loop_inv_def)
next
  case False
  show ?thesis
  proof (cases "pb \<noteq> blockCount s")
    case True
    with assms False obtain r s1 where rn: "run_new_process w line s = Inr (r, s1)"
      and s': "s' = s1\<lparr>lineCount := lineCount s1 + 1\<rparr>" and pb': "pb' = blockCount s"
      by (auto simp: parse_line_def Let_def split: if_splits sum.splits)
    from rn have "blockCount s1 = blockCount s"
      by (auto simp: run_new_process_def split: if_splits option.splits launch.splits)
    with s' pb' show ?thesis by (simp add: loop_inv_def block_open_def)
  next
    case eq: False
    with assms False obtain c p r s1 where hc: "handle_command c p s = Inr (r, s1)"
      and s': "s' = s1\<lparr>lineCount := lineCount s1 + 1\<rparr>" and pb': "pb' = pb"
      by (auto simp: parse_line_def Let_def split: if_splits sum.splits prod.splits)
    from handle_command_blockCount [OF hc] eq s' pb' show ?thesis
      by (simp add: loop_inv_def block_open_def)
  qed
qed

lemma loop_step_inv:
  assumes "loop_step w pb line s = Inr (pb', s')"
  shows "loop_inv pb' s'"
proof -
  from loop_step_parse_line [OF assms] obtain s1 d where
    p: "parse_line w pb line s = Inr (pb', s1)" and s': "s' = s1\<lparr>usr1_due := d\<rparr>"
    by blast
  from parse_line_inv [OF p] s' show ?thesis
    by (simp add: loop_inv_def block_open_def)
qed

lemma after_lines_inv:
  "loop_inv pb s \<Longrightarrow> after_lines w input n pb s = Some (pb', s') \<Longrightarrow> loop_inv pb' s'"
proof (induction n arbitrary: pb s)
  case 0
  then show ?case by simp
next
  case (Suc n)
  from Suc.prems(2) obtain line s0 pb1 s1 where
    "read_input input s = (Some line, s0)"
    and p: "loop_step w pb line s0 = Inr (pb1, s1)"
    and a: "after_lines w input n pb1 s1 = Some (pb', s')"
    by (auto split: prod.splits option.splits sum.splits)
  from Suc.IH [OF loop_step_inv [OF p] a] show ?case .
qed

lemma reached_inv:
  assumes "reached w argv stdin_bytes n = Some (input, pb, s)"
  shows "loop_inv pb s"
proof -
  from assms obtain s0 where
    g: "get_input_source w argv (startup w stdin_bytes) = Inr (input, s0)"
    and a: "after_lines w input n 0 s0 = Some (pb, s)"
    by (auto simp: reached_def split: sum.splits option.splits)
  from g have "loop_inv 0 s0"
    by (auto simp: get_input_source_def startup_def init_def loop_inv_def
        split: list.splits option.splits)
  from after_lines_inv [OF this a] show ?thesis .
qed

text \<open>
  The two places where no block is open: the start, and after a block's end.
\<close>

lemma reached_start_no_block:
  assumes "reached w argv stdin_bytes 0 = Some (input, pb, s)"
  shows "\<not> block_open pb s \<and> blockCount s = 1"
  using assms
  by (auto simp: reached_def get_input_source_def startup_def init_def block_open_def
      split: sum.splits list.splits option.splits)

lemma parse_line_blank_no_block:
  assumes "parse_line w pb line s = Inr (pb', s')" and "block_end line"
  shows "\<not> block_open pb' s' \<and> blockCount s' = blockCount s + 1"
  using assms
  by (auto simp: parse_line_def close_block_def Let_def block_open_def
      split: if_splits sum.splits)

lemma parse_line_text_block_open:
  assumes "parse_line w pb line s = Inr (pb', s')" and "\<not> block_end line"
  shows "block_open pb' s' \<and> blockCount s' = blockCount s"
proof (cases "pb \<noteq> blockCount s")
  case True
  with assms show ?thesis
    by (auto simp: parse_line_def run_new_process_def Let_def block_open_def
        split: if_splits sum.splits option.splits launch.splits)
next
  case False
  with assms obtain c p r s1 where hc: "handle_command c p s = Inr (r, s1)"
    and s': "s' = s1\<lparr>lineCount := lineCount s1 + 1\<rparr>" and pb': "pb' = pb"
    by (auto simp: parse_line_def Let_def split: if_splits sum.splits prod.splits)
  from handle_command_blockCount [OF hc] False s' pb' show ?thesis
    by (simp add: block_open_def)
qed

text \<open>
  The block counter is the number of the block the run is in, or of the next one when
  none is open: one more than the number of blocks that have ended.
\<close>

lemma after_lines_blockCount:
  "after_lines w input n pb s = Some (pb', s') \<Longrightarrow>
     blockCount s' = blockCount s + int (length (filter block_end (lines_read w input n pb s)))"
proof (induction n arbitrary: pb s)
  case 0
  then show ?case by simp
next
  case (Suc n)
  from Suc.prems obtain line s0 pb1 s1 where
    r: "read_input input s = (Some line, s0)"
    and p: "loop_step w pb line s0 = Inr (pb1, s1)"
    and a: "after_lines w input n pb1 s1 = Some (pb', s')"
    by (auto split: prod.splits option.splits sum.splits)
  from read_input_frame [OF r] have b0: "blockCount s0 = blockCount s"
    by simp
  from loop_step_parse_line [OF p] obtain s2 d where
    q: "parse_line w pb line s0 = Inr (pb1, s2)" and s1: "s1 = s2\<lparr>usr1_due := d\<rparr>"
    by blast
  have "blockCount s2 = blockCount s0 + (if block_end line then 1 else 0)"
    using parse_line_blank_no_block [OF q] parse_line_text_block_open [OF q]
    by (cases "block_end line") simp_all
  with s1 have b1: "blockCount s1 = blockCount s0 + (if block_end line then 1 else 0)"
    by simp
  from Suc.IH [OF a] r p b0 b1 show ?case
    by simp
qed

lemma reached_blockCount:
  assumes "reached w argv stdin_bytes n = Some (input, pb, s)"
  shows "blockCount s = 1 + int (blocks_ended w argv stdin_bytes n)"
proof -
  from assms obtain s0 where
    g: "get_input_source w argv (startup w stdin_bytes) = Inr (input, s0)"
    and a: "after_lines w input n 0 s0 = Some (pb, s)"
    by (auto simp: reached_def split: sum.splits option.splits)
  from g have "blockCount s0 = 1"
    by (auto simp: get_input_source_def startup_def init_def split: list.splits option.splits)
  with after_lines_blockCount [OF a] g show ?thesis
    by (simp add: blocks_ended_def)
qed

subsection \<open>Status words\<close>

lemma status_shift:
  assumes "0 \<le> st" and "st < 65536"
  shows "drop_bit 8 st = WEXITSTATUS st"
proof -
  have "st div 256 < 256" using assms by simp
  moreover have "0 \<le> st div 256" using assms by simp
  ultimately show ?thesis
    by (simp add: WEXITSTATUS_def drop_bit_eq_div)
qed

lemma WEXITSTATUS_range: "0 \<le> WEXITSTATUS st \<and> WEXITSTATUS st < 256"
  by (simp add: WEXITSTATUS_def)

subsection \<open>Lines of plain text\<close>

text \<open>
  On bytes without NUL, \<^verbatim>\<open>get_line\<close> is the split at the first line terminator,
  whatever the length of the line; at the end of the stream it gives the bytes left,
  if there are any.
\<close>

lemma cstr_plain: "NUL \<notin> set b \<Longrightarrow> cstr b = b"
  by (auto simp: cstr_def takeWhile_eq_all_conv)

lemma get_line_loop_line:
  assumes "NUL \<notin> set line" and "NUL \<notin> set buf" and "NUL \<notin> set pre" and "NL \<notin> set pre"
  shows "get_line_loop (pre @ NL # rest) line buf = (Some (line @ buf @ pre), rest)"
  using assms
proof (induction pre arbitrary: line buf)
  case Nil
  then show ?case by (simp add: append_to_line_def cstr_plain)
next
  case (Cons c cs)
  then have c: "c \<noteq> NL" "c \<noteq> NUL" by auto
  show ?case
  proof (cases "length buf < BUFF_LEN - 1")
    case True
    with c Cons.IH [of line "buf @ [c]"] Cons.prems show ?thesis by simp
  next
    case False
    have "NUL \<notin> set (append_to_line line buf)"
      using Cons.prems by (simp add: append_to_line_def cstr_plain)
    with False c Cons.IH [of "append_to_line line buf" "[c]"] Cons.prems show ?thesis
      by (simp add: append_to_line_def cstr_plain)
  qed
qed

lemma get_line_loop_rest:
  assumes "NUL \<notin> set line" and "NUL \<notin> set buf" and "NUL \<notin> set inp" and "NL \<notin> set inp"
    and "buf @ inp \<noteq> []"
  shows "get_line_loop inp line buf = (Some (line @ buf @ inp), [])"
  using assms
proof (induction inp arbitrary: line buf)
  case Nil
  then show ?case by (simp add: append_to_line_def cstr_plain)
next
  case (Cons c cs)
  then have c: "c \<noteq> NL" "c \<noteq> NUL" by auto
  show ?case
  proof (cases "length buf < BUFF_LEN - 1")
    case True
    with c Cons.IH [of line "buf @ [c]"] Cons.prems show ?thesis by simp
  next
    case False
    have "NUL \<notin> set (append_to_line line buf)"
      using Cons.prems by (simp add: append_to_line_def cstr_plain)
    with False c Cons.IH [of "append_to_line line buf" "[c]"] Cons.prems show ?thesis
      by (simp add: append_to_line_def cstr_plain)
  qed
qed

lemma get_line_line:
  assumes "NUL \<notin> set str" and "NL \<notin> set str"
  shows "get_line (str @ NL # rest) = (Some str, rest)"
  using get_line_loop_line [of "[]" "[]" str rest] assms by (simp add: get_line_def)

lemma get_line_rest:
  assumes "NUL \<notin> set str" and "NL \<notin> set str" and "str \<noteq> []"
  shows "get_line str = (Some str, [])"
  using get_line_loop_rest [of "[]" "[]" str] assms by (simp add: get_line_def)

lemma printf_noargs_plain: "CHR ''%'' \<notin> set m \<Longrightarrow> printf_noargs m = Some m"
  by (induction m rule: printf_noargs.induct) auto

lemma read_input_line:
  assumes "script s = l @ NL # rest" and "plain l"
  shows "read_input Script s = (Some l, s\<lparr>script := rest\<rparr>)"
  using assms get_line_line [of l rest]
  by (simp add: read_input_def stream_of_def plain_def)

lemma text_of_Cons: "text_of (l # ls) = l @ NL # text_of ls"
  by (simp add: text_of_def)

text \<open>
  A command line is split at its first space: the word before it is the command, and
  the rest of the line, spaces and all, is the parameter text. A line that is one word
  has no parameter.
\<close>

lemma tokens_no_delimiter:
  "d \<notin> set xs \<Longrightarrow> tokens d xs cur = (if cur @ xs = [] then [] else [cur @ xs])"
  by (induction xs arbitrary: cur) auto

lemma split_command_line:
  assumes "word \<noteq> []" and "CHR '' '' \<notin> set word" and "NL \<notin> set word"
    and "params \<noteq> []" and "NL \<notin> set params"
  shows "split_command (word @ CHR '' '' # params) = (Some word, Some params)"
proof -
  obtain c cs where w: "word = c # cs"
    using assms(1) by (cases word) auto
  have nd: "\<forall>x \<in> set word. x \<notin> set [CHR '' '', NL]"
    using assms(2,3) by auto
  then have d: "dropWhile (\<lambda>x. x \<in> set [CHR '' '', NL]) (word @ CHR '' '' # params)
              = word @ CHR '' '' # params"
    using w by simp
  have t: "takeWhile (\<lambda>x. x \<notin> set [CHR '' '', NL]) (word @ CHR '' '' # params) = word"
    using nd by (simp add: takeWhile_append2)
  have r: "dropWhile (\<lambda>x. x \<notin> set [CHR '' '', NL]) (word @ CHR '' '' # params)
              = CHR '' '' # params"
    using nd by (simp add: dropWhile_append2)
  have "strtok (word @ CHR '' '' # params) [CHR '' '', NL] = Some (word, params)"
    unfolding strtok_def Let_def d t r using w by simp
  moreover have "tokens NL params [] = [params]"
    using tokens_no_delimiter [OF assms(5), of "[]"] assms(4) by simp
  ultimately show ?thesis
    by (simp add: split_command_def)
qed

lemma split_command_bare:
  assumes "word \<noteq> []" and "CHR '' '' \<notin> set word" and "NL \<notin> set word"
  shows "split_command word = (Some word, None)"
proof -
  obtain c cs where w: "word = c # cs"
    using assms(1) by (cases word) auto
  have nd: "\<forall>x \<in> set word. x \<notin> set [CHR '' '', NL]"
    using assms(2,3) by auto
  then have d: "dropWhile (\<lambda>x. x \<in> set [CHR '' '', NL]) word = word"
    using w by simp
  have t: "takeWhile (\<lambda>x. x \<notin> set [CHR '' '', NL]) word = word"
    using nd by (simp add: takeWhile_eq_all_conv)
  have r: "dropWhile (\<lambda>x. x \<notin> set [CHR '' '', NL]) word = []"
    using nd by simp
  have "strtok word [CHR '' '', NL] = Some (word, [])"
    unfolding strtok_def Let_def d t r using w by simp
  then show ?thesis
    by (simp add: split_command_def)
qed

subsection \<open>A line that does not end the run\<close>

lemma parse_line_invocation:
  assumes "parse_line w pb l s = Inr (pb', s')" and "\<not> block_end l"
    and "in_step False seen pb s"
  shows "in_step True False pb' s' \<and> script s' = script s"
  using assms
  by (auto simp: parse_line_def in_step_def run_new_process_def Let_def
      split: if_splits sum.splits option.splits launch.splits)

lemma parse_line_command:
  assumes "parse_line w pb l s = Inr (pb', s')" and "\<not> block_end l"
    and "in_step True seen pb s" and "command_word l \<noteq> Some ''endinput''"
  shows "in_step True (if command_word l = Some ''exit'' then True else seen) pb' s'
           \<and> script s' = script s"
proof -
  obtain c p where sp: "split_command l = (c, p)"
    by (cases "split_command l")
  from assms(3) have pb: "pb = blockCount s"
    by (simp add: in_step_def)
  from assms(1,2) pb sp obtain r s1 where hc: "handle_command c p s = Inr (r, s1)"
    and r: "r \<noteq> - 1" and s': "s' = s1\<lparr>lineCount := lineCount s1 + 1\<rparr>" and pb': "pb' = pb"
    by (auto simp: parse_line_def Let_def split: if_splits sum.splits)
  from hc obtain cw where c: "c = Some cw"
    by (cases c) (auto simp: handle_command_def)
  from sp c have cw: "command_word l = Some cw"
    by (simp add: command_word_def)
  with assms(4) c have ne: "c \<noteq> Some ''endinput''" by simp
  note bc = handle_command_blockCount [OF hc]
    and pp = handle_command_pipes [OF hc ne]
    and st = handle_command_streams [OF hc]
  have se: "sawExit s1 = (if cw = ''exit'' then True else seen)"
  proof (cases "cw = ''exit''")
    case True
    with hc c r handle_exit_passed [of p s r s1] show ?thesis by simp
  next
    case False
    with hc c handle_command_sawExit [of cw p s r s1] assms(3) show ?thesis
      by (simp add: in_step_def)
  qed
  from assms(3) bc pp st se s' pb' cw show ?thesis
    by (simp add: in_step_def)
qed

lemma parse_line_block_end:
  assumes "block_end l" and "in_step True True pb s"
  shows "\<exists>s'. parse_line w pb l s = Inr (blockCount s, s')
           \<and> in_step False False (blockCount s) s' \<and> script s' = script s"
  using assms by (simp add: parse_line_def close_block_def in_step_def)

subsection \<open>A program that cannot be executed\<close>

text \<open>
  The signal of a failed \<^verbatim>\<open>execvp\<close> is asynchronous. When it arrives as soon as
  the invocation line is counted, the run ends with the diagnostic for that line. When
  it arrives later, the run has gone on with the script, and the diagnostic names the
  last line that was counted. When the script ends before the signal arrives,
  \<^verbatim>\<open>main\<close> returns 0. A command that waits for the child is ended by the signal.
\<close>

lemma exec_failure_is_asynchronous:
  "(\<exists>s. main (demo_world (text_of [''nosuch'', ''limit 9''])) demo_argv []
           = Exit 1 s
      \<and> stdout s = ''Test failed on line 1.'' @ [NL])
   \<and> (\<exists>s. main (demo_world (text_of [''late'', ''limit 9'', ''endinput'', ''limit 9'']))
             demo_argv [] = Exit 1 s
        \<and> stdout s = ''Test failed on line 3.'' @ [NL])
   \<and> (\<exists>s. main (demo_world (text_of [''late'', ''limit 9''])) demo_argv [] = Exit 0 s
        \<and> stdout s = [])
   \<and> (\<exists>s. main (demo_world (text_of [''late'', ''exit 0'', ''''])) demo_argv [] = Exit 1 s
        \<and> stdout s = ''Test failed on line 1.'' @ [NL])"
  by (simp add: run_defs main_def parse_input.simps idle_def)

section \<open>The claims\<close>

subsection \<open>C1: well-formed scripts whose commands all succeed\<close>

text \<open>
  The part of C1 that holds: a well-formed script in which no block uses
  \<^verbatim>\<open>endinput\<close> and every command succeeds is read to its end, and the run returns
  from \<^verbatim>\<open>main\<close> with status 0. No diagnostic is printed on the way, since only
  \<^verbatim>\<open>throw_error\<close> prints one and it ends the run with its code.
\<close>

lemma well_formed_run_returns:
  assumes "\<forall>l \<in> set ls. plain l \<and> command_word l \<noteq> Some ''endinput''"
    and "well_formed in_block seen ls"
    and "in_step in_block seen pb s"
    and "script s = text_of ls"
    and "commands_succeed w Script (length ls) pb s"
  shows "\<exists>s'. parse_input w Script pb s = Inr s'"
  using assms
proof (induction ls arbitrary: in_block seen pb s)
  case Nil
  then have "stream_of Script s = []"
    by (simp add: stream_of_def text_of_def)
  from parse_input_eof [OF read_input_exhausted [OF this]] show ?case
    by blast
next
  case (Cons l ls)
  from Cons.prems(1) have pl: "plain l" and ne: "command_word l \<noteq> Some ''endinput''"
    and rest: "\<forall>l \<in> set ls. plain l \<and> command_word l \<noteq> Some ''endinput''"
    by simp_all
  let ?s0 = "s\<lparr>script := text_of ls\<rparr>"
  have rd: "read_input Script s = (Some l, ?s0)"
    using read_input_line [OF _ pl, of s "text_of ls"] Cons.prems(4)
    by (simp add: text_of_Cons)
  have st0: "in_step in_block seen pb ?s0"
    using Cons.prems(3) by (simp add: in_step_def)
  note step = parse_input_step [OF rd, of w pb]
  from Cons.prems(5) rd
  have ok: "(case parse_line w pb l ?s0 of
               Inl _ \<Rightarrow> block_end l
             | Inr (pb', s1) \<Rightarrow>
                 (case line_counted s1 of
                    Inl _ \<Rightarrow> False
                  | Inr s2 \<Rightarrow> commands_succeed w Script (length ls) pb' s2))"
    by simp
  have "\<exists>pb' s1 ib' seen'. parse_line w pb l ?s0 = Inr (pb', s1)
          \<and> well_formed ib' seen' ls \<and> in_step ib' seen' pb' s1 \<and> script s1 = text_of ls"
  proof (cases "block_end l")
    case True
    with Cons.prems(2) have ib: "in_block" "seen" and wf: "well_formed False False ls"
      by simp_all
    from parse_line_block_end [OF True, of pb ?s0 w] st0 ib obtain s1 where
      "parse_line w pb l ?s0 = Inr (blockCount ?s0, s1)"
      and "in_step False False (blockCount ?s0) s1" and "script s1 = text_of ls"
      by auto
    with wf show ?thesis by blast
  next
    case False
    with ok obtain pb' s1 where p: "parse_line w pb l ?s0 = Inr (pb', s1)"
      by (cases "parse_line w pb l ?s0") auto
    show ?thesis
    proof (cases in_block)
      case nb: False
      with Cons.prems(2) False have wf: "well_formed True False ls"
        by simp
      from parse_line_invocation [OF p False, of seen] st0 nb
      have "in_step True False pb' s1" and "script s1 = text_of ls"
        by simp_all
      with p wf show ?thesis by blast
    next
      case ib: True
      let ?seen' = "if command_word l = Some ''exit'' then True else seen"
      from Cons.prems(2) False ib have wf: "well_formed True ?seen' ls"
        by (simp split: if_splits)
      from parse_line_command [OF p False _ ne, of seen] st0 ib
      have "in_step True ?seen' pb' s1" and "script s1 = text_of ls"
        by simp_all
      with p wf show ?thesis by blast
    qed
  qed
  then obtain pb' s1 ib' seen' where p: "parse_line w pb l ?s0 = Inr (pb', s1)"
    and wf: "well_formed ib' seen' ls" and i1: "in_step ib' seen' pb' s1"
    and sc: "script s1 = text_of ls"
    by blast
  from ok p obtain s2 where lc: "line_counted s1 = Inr s2"
    and cs: "commands_succeed w Script (length ls) pb' s2"
    by (cases "line_counted s1") auto
  from line_counted_frame [OF lc] obtain d where s2: "s2 = s1\<lparr>usr1_due := d\<rparr>"
    by blast
  from i1 sc s2 have i2: "in_step ib' seen' pb' s2" and sc2: "script s2 = text_of ls"
    by (simp_all add: in_step_def)
  have "loop_step w pb l ?s0 = Inr (pb', s2)"
    using p lc by (simp add: loop_step_def)
  with Cons.IH [OF rest wf i2 sc2 cs] step show ?case
    by simp
qed

lemma well_formed_script_succeeds:
  assumes "fopen_r w path = Some (text_of ls)"
    and "\<forall>l \<in> set ls. plain l \<and> command_word l \<noteq> Some ''endinput''"
    and "well_formed False False ls"
    and "commands_succeed w Script (length ls) 0
           ((startup w stdin_bytes)\<lparr>script := text_of ls\<rparr>)"
  shows "\<exists>s. main w [prog, path] stdin_bytes = Exit 0 s"
proof -
  let ?s = "(startup w stdin_bytes)\<lparr>script := text_of ls\<rparr>"
  have "in_step False False 0 ?s"
    by (simp add: in_step_def startup_def init_def)
  from well_formed_run_returns [OF assms(2,3) this _ assms(4)]
  obtain s' where "parse_input w Script 0 ?s = Inr s'"
    by auto
  with assms(1) show ?thesis
    by (simp add: main_def get_input_source_def)
qed

lemma well_formed_script_succeeds_example:
  "\<exists>s. main (demo_world (text_of [''ok'', ''echo on'', ''want OK'', ''exit 0'', '''',
                                     ''ok'', ''exit 0'', '''']))
            [''suspect'', ''script''] [] = Exit 0 s"
proof -
  let ?ls = "[''ok'', ''echo on'', ''want OK'', ''exit 0'', '''', ''ok'', ''exit 0'', '''']"
  have f: "fopen_r (demo_world (text_of ?ls)) ''script'' = Some (text_of ?ls)"
    by (simp add: demo_world_def)
  have p: "\<forall>l \<in> set ?ls. plain l \<and> command_word l \<noteq> Some ''endinput''"
    by (simp add: plain_def command_word_def split_command_def strtok_def NL_def NUL_def)
  have wf: "well_formed False False ?ls"
    by (simp add: block_end_def command_word_def split_command_def strtok_def NL_def)
  have cs: "commands_succeed (demo_world (text_of ?ls)) Script (length ?ls) 0
              ((startup (demo_world (text_of ?ls)) [])\<lparr>script := text_of ?ls\<rparr>)"
    by (simp add: run_defs)
  from well_formed_script_succeeds [OF f p wf cs] show ?thesis .
qed

text \<open>
  C1 (every well-formed script whose commands all succeed ends with status 0 and no
  diagnostic) fails on the code for a block that uses \<^verbatim>\<open>endinput\<close>. The script
  below is well formed, and after five lines every command has succeeded and nothing
  was printed. \<^verbatim>\<open>handle_endinput\<close> has closed the stream to the child, and the end
  of the block calls \<^verbatim>\<open>fclose\<close> on it a second time, which is undefined: the run
  does not reach status 0.
\<close>

theorem well_formed_script_with_endinput_undefined:
  "(\<exists>s. reached (demo_world (text_of [''cat'', ''send hello'', ''want hello'', ''endinput'',
                                        ''exit 0'', ''''])) demo_argv [] 5
            = Some (Script, 1, s)
       \<and> sawExit s \<and> stdout s = [])
   \<and> main (demo_world (text_of [''cat'', ''send hello'', ''want hello'', ''endinput'',
                                  ''exit 0'', ''''])) demo_argv []
       = Undefined"
  by (simp add: run_defs main_def parse_input.simps eval_nat_numeral)

subsection \<open>C2: the exit command\<close>

text \<open>
  A number that fits an \<^verbatim>\<open>int\<close> is stored as it is written, and what
  \<^verbatim>\<open>sscanf(params, "%d%c", ...)\<close> stores is read off the parameter text.
\<close>

lemma stored_int_fits:
  assumes "fits_int n"
  shows "stored_int n = n"
proof -
  from assms have r: "- (2 ^ 31) \<le> n" "n \<le> 2 ^ 31 - 1"
    by (simp_all add: fits_int_def INT_MIN_def INT_MAX_def)
  then have "strtol_value n = n"
    by (simp add: strtol_value_def LONG_MIN_def LONG_MAX_def)
  moreover from r have "(n + 2 ^ 31) mod 2 ^ 32 = n + 2 ^ 31"
    by (intro mod_pos_pos_trivial) simp_all
  ultimately show ?thesis
    by (simp add: stored_int_def)
qed

lemma scan_d_c_no_number: "no_number p \<Longrightarrow> scan_d_c p = None"
  by (simp add: no_number_def scan_d_c_def)

lemma scan_d_c_bad_delimiter:
  "bad_delimiter p \<Longrightarrow> \<exists>n d. scan_d_c p = Some (n, d) \<and> d \<noteq> CHR '' '' \<and> d \<noteq> NUL"
  by (auto simp: bad_delimiter_def scan_d_c_def split: option.splits list.splits)

lemma scan_d_c_number_of:
  "number_of p = Some n \<Longrightarrow>
     \<exists>d. scan_d_c p = Some (stored_int n, d) \<and> (d = CHR '' '' \<or> d = NUL)"
  by (auto simp: number_of_def scan_d_c_def split: option.splits list.splits if_splits)

text \<open>
  What \<^verbatim>\<open>handle_exit\<close> does, case by case, when no signal of a failed
  \<^verbatim>\<open>execvp\<close> is on its way and the status word that \<^verbatim>\<open>wait\<close> reports is a
  16-bit one. It fails (returns \<open>-1\<close>) when an exit command was already seen, when
  the parameter is missing, when it does not start with a number, when the number is
  followed by something other than a space or the end, and when the number stored for
  it is negative. Otherwise it records the exit command and waits for the child, and
  it passes (returns 1) exactly when the child has terminated normally with the number
  stored as its exit code.
\<close>

lemma handle_exit_cases:
  assumes "\<And>st. terminated (obs s) = Some st \<Longrightarrow> 0 \<le> st \<and> st < 65536"
    and "usr1_due s = None"
  shows "(sawExit s \<longrightarrow> handle_exit params s = Inr (- 1, s))
       \<and> (params = None \<longrightarrow> handle_exit params s = Inr (- 1, s))
       \<and> (\<forall>p. params = Some p \<and> (no_number p \<or> bad_delimiter p)
             \<longrightarrow> handle_exit params s = Inr (- 1, s))
       \<and> (\<forall>p n. params = Some p \<and> number_of p = Some n \<and> stored_int n < 0
             \<longrightarrow> handle_exit params s = Inr (- 1, s))
       \<and> (\<forall>p n st. \<not> sawExit s \<and> params = Some p \<and> number_of p = Some n
               \<and> 0 \<le> stored_int n \<and> terminated (obs s) = Some st
             \<longrightarrow> handle_exit params s
                   = Inr (if exited_with st (stored_int n) then 1 else - 1,
                          s\<lparr>sawExit := True, childStatus := st\<rparr>))"
proof -
  have seen: "sawExit s \<longrightarrow> handle_exit params s = Inr (- 1, s)"
    by (simp add: handle_exit_def)
  have missing: "params = None \<longrightarrow> handle_exit params s = Inr (- 1, s)"
    by (simp add: handle_exit_def)
  have malformed: "\<forall>p. params = Some p \<and> (no_number p \<or> bad_delimiter p)
             \<longrightarrow> handle_exit params s = Inr (- 1, s)"
    by (auto simp: handle_exit_def dest: scan_d_c_no_number scan_d_c_bad_delimiter)
  have negative: "\<forall>p n. params = Some p \<and> number_of p = Some n \<and> stored_int n < 0
             \<longrightarrow> handle_exit params s = Inr (- 1, s)"
    by (auto simp: handle_exit_def dest: scan_d_c_number_of)
  have waited: "\<forall>p n st. \<not> sawExit s \<and> params = Some p \<and> number_of p = Some n
               \<and> 0 \<le> stored_int n \<and> terminated (obs s) = Some st
             \<longrightarrow> handle_exit params s
                   = Inr (if exited_with st (stored_int n) then 1 else - 1,
                          s\<lparr>sawExit := True, childStatus := st\<rparr>)"
  proof (intro allI impI, elim conjE)
    fix p n st
    assume ns: "\<not> sawExit s" and p: "params = Some p" and nu: "number_of p = Some n"
      and n0: "0 \<le> stored_int n" and st: "terminated (obs s) = Some st"
    from scan_d_c_number_of [OF nu] obtain d where
      sc: "scan_d_c p = Some (stored_int n, d)" and ok: "d = CHR '' '' \<or> d = NUL"
      by blast
    from assms(1) [OF st] have "drop_bit 8 st = WEXITSTATUS st"
      by (intro status_shift) simp_all
    then have "exited_with st (stored_int n) \<longleftrightarrow> WIFEXITED st \<and> drop_bit 8 st = stored_int n"
      by (simp add: exited_with_def)
    with ns p sc ok n0 st assms(2)
    show "handle_exit params s
            = Inr (if exited_with st (stored_int n) then 1 else - 1,
                   s\<lparr>sawExit := True, childStatus := st\<rparr>)"
      by (auto simp: handle_exit_def Let_def)
  qed
  from seen missing malformed negative waited show ?thesis
    by blast
qed

text \<open>
  The part of C2 that holds: for a parameter whose number fits an \<^verbatim>\<open>int\<close>, the
  exit command passes exactly when no exit command was seen in the block, the number
  is not negative and the child terminates normally with that number as its exit code.
\<close>

lemma exit_in_range_passes_iff_exit_code:
  assumes "\<And>st. terminated (obs s) = Some st \<Longrightarrow> 0 \<le> st \<and> st < 65536"
    and "usr1_due s = None"
    and "number_of p = Some n" and "fits_int n"
  shows "(\<exists>s'. handle_exit (Some p) s = Inr (1, s')) \<longleftrightarrow>
           (\<not> sawExit s \<and> (\<exists>st. terminated (obs s) = Some st \<and> exited_with st n))"
proof -
  note si = stored_int_fits [OF assms(4)]
  note cases = handle_exit_cases [OF assms(1,2), of "Some p"]
  from scan_d_c_number_of [OF assms(3)] si obtain d where
    sc: "scan_d_c p = Some (n, d)" and ok: "d = CHR '' '' \<or> d = NUL"
    by auto
  show ?thesis
  proof (cases "sawExit s")
    case True
    with cases show ?thesis by simp
  next
    case ns: False
    show ?thesis
    proof (cases "n < 0")
      case True
      with cases assms(3) si have "handle_exit (Some p) s = Inr (- 1, s)"
        by simp
      moreover have "\<not> exited_with st n" for st
        using True WEXITSTATUS_range [of st] by (auto simp: exited_with_def)
      ultimately show ?thesis by simp
    next
      case n0: False
      show ?thesis
      proof (cases "terminated (obs s)")
        case None
        with ns sc ok n0 assms(2) have "handle_exit (Some p) s = Inl (blocked (s\<lparr>sawExit := True\<rparr>))"
          by (auto simp: handle_exit_def Let_def)
        with None show ?thesis by simp
      next
        case (Some st)
        with cases ns assms(3) si n0
        have "handle_exit (Some p) s
                = Inr (if exited_with st n then 1 else - 1, s\<lparr>sawExit := True, childStatus := st\<rparr>)"
          by simp
        with ns Some show ?thesis by auto
      qed
    qed
  qed
qed

text \<open>
  C2 (\<^verbatim>\<open>exit n\<close> passes if and only if the child terminates normally with exit code
  exactly \<open>n\<close>, and fails for a negative parameter) fails on the code for a number
  that does not fit an \<^verbatim>\<open>int\<close>. \<^verbatim>\<open>handle_exit\<close> checks the sign and the
  delimiter and never the range, so the comparison is made with the low 32 bits that
  \<^verbatim>\<open>sscanf\<close> stored. The child below exits with code 0. The parameter
  \<^verbatim>\<open>4294967296\<close> is a well-formed non-negative number and is not the child's exit
  code, and \<^verbatim>\<open>exit 4294967296\<close> passes; \<^verbatim>\<open>-4294967296\<close> is negative, and
  \<^verbatim>\<open>exit -4294967296\<close> passes as well. A script with the first runs to status 0.
\<close>

theorem exit_number_out_of_range_passes:
  "terminated (obs (started ok_program [])) = Some 0
   \<and> \<not> sawExit (started ok_program [])
   \<and> number_of ''4294967296'' = Some 4294967296
   \<and> \<not> exited_with 0 4294967296
   \<and> handle_exit (Some ''4294967296'') (started ok_program [])
       = Inr (1, (started ok_program [])\<lparr>sawExit := True, childStatus := 0\<rparr>)
   \<and> number_of ''-4294967296'' = Some (- 4294967296)
   \<and> handle_exit (Some ''-4294967296'') (started ok_program [])
       = Inr (1, (started ok_program [])\<lparr>sawExit := True, childStatus := 0\<rparr>)
   \<and> (\<exists>s. main (demo_world (text_of [''ok'', ''want OK'', ''exit 4294967296'', '''']))
              demo_argv [] = Exit 0 s
        \<and> stdout s = [])"
  by (simp add: run_defs main_def parse_input.simps started_def number_of_def
      exited_with_def WEXITSTATUS_def)

subsection \<open>C3: a block that ends without an exit command\<close>

text \<open>
  C3. Take any run that stands at the head of the loop with a block open and no exit
  command seen in it (whatever the commands read so far did), and let the next line be
  blank. Then the run ends with exit status 2, and the last thing it prints is
  \<^verbatim>\<open>Block N ended without an exit.\<close> with the number \<open>N\<close> of that block: one more
  than the number of blocks that have ended before.
\<close>

theorem block_without_exit_aborts:
  assumes "reached w argv stdin_bytes n = Some (input, pb, s)"
    and "block_open pb s"
    and "\<not> sawExit s"
    and "read_input input s = (Some line, s0)"
    and "block_end line"
  shows "\<exists>s'. main w argv stdin_bytes = Exit 2 s'
           \<and> stdout s' = stdout s @ ''Block '' @ dec_int (blockCount s)
                            @ '' ended without an exit.'' @ [NL]
           \<and> blockCount s = 1 + int (blocks_ended w argv stdin_bytes n)"
proof -
  from read_input_frame [OF assms(4)] assms(3)
  have f: "stdout s0 = stdout s" "blockCount s0 = blockCount s" "\<not> sawExit s0"
    by simp_all
  have "parse_input w input pb s = Inl (throw_error ERR_BLOCK (blockCount s0) [] s0)"
    using parse_input_step [OF assms(4), of w pb]
      loop_step_blank_no_exit [OF assms(5) f(3), of w pb]
    by simp
  with main_reached [OF assms(1)]
  have "main w argv stdin_bytes = throw_error ERR_BLOCK (blockCount s0) [] s0"
    by simp
  with throw_error_block [of "blockCount s0" "[]" s0] f reached_blockCount [OF assms(1)]
  show ?thesis
    by auto
qed

theorem block_without_exit_aborts_witness:
  "\<exists>s'. main (demo_world (text_of [''ok'', ''want OK'', ''exit 0'', '''',
                                      ''ok'', ''want OK'', '''']))
            demo_argv [] = Exit 2 s'
      \<and> stdout s' = ''Block 2 ended without an exit.'' @ [NL]"
proof -
  let ?w = "demo_world (text_of [''ok'', ''want OK'', ''exit 0'', '''',
                                  ''ok'', ''want OK'', ''''])"
  have "\<exists>s. reached ?w demo_argv [] 6 = Some (Script, 2, s)
          \<and> block_open 2 s \<and> \<not> sawExit s \<and> stdout s = [] \<and> blockCount s = 2
          \<and> (\<exists>s0. read_input Script s = (Some [], s0))"
    by (simp add: run_defs block_open_def eval_nat_numeral)
  then obtain s s0 where r: "reached ?w demo_argv [] 6 = Some (Script, 2, s)"
    and b: "block_open 2 s" and e: "\<not> sawExit s"
    and o: "stdout s = []" "blockCount s = 2"
    and l: "read_input Script s = (Some [], s0)"
    by blast
  have be: "block_end []" by (simp add: block_end_def)
  from block_without_exit_aborts [OF r b e l be] o show ?thesis
    by (auto simp: dec_int_def digit_char_def)
qed

subsection \<open>C4: the input ends while a block is open\<close>

text \<open>
  C4 (input exhausted while a block is open is a block-incomplete failure) does not
  hold as the specification states it. The script below ends right after the exit
  command of its only block, with no blank line: the run stands at the head of the
  loop with the block open and nothing left to read, and it ends with status 0 and
  prints nothing.
\<close>

theorem open_block_at_end_of_input_counterexample:
  "\<exists>s. reached (demo_world (text_of [''ok'', ''want OK'', ''exit 0''])) demo_argv [] 3
          = Some (Script, 1, s)
      \<and> block_open 1 s \<and> stream_of Script s = []
      \<and> main (demo_world (text_of [''ok'', ''want OK'', ''exit 0''])) demo_argv [] = Exit 0 s
      \<and> stdout s = [] \<and> kills s = []"
  by (simp add: run_defs main_def parse_input.simps block_open_def eval_nat_numeral)

text \<open>
  C4, amended. When the input is exhausted while a block is still open, the loop of
  \<^verbatim>\<open>parse_input\<close> just ends: the run terminates with status 0 in the state it was in,
  so it prints no diagnostic, sends no signal to the child and leaves its pipes as
  they are. Whether the block has seen an exit command makes no difference.
\<close>

theorem input_exhausted_in_open_block:
  assumes "reached w argv stdin_bytes n = Some (input, pb, s)"
    and "block_open pb s"
    and "stream_of input s = []"
  shows "main w argv stdin_bytes = Exit 0 s"
  using main_reached [OF assms(1)] parse_input_eof [OF read_input_exhausted [OF assms(3)], of w pb]
  by simp

theorem input_exhausted_in_open_block_witness:
  "\<exists>s. main (demo_world (text_of [''cat'', ''send a'', ''want a''])) demo_argv [] = Exit 0 s
      \<and> \<not> sawExit s \<and> pid s = 100 \<and> readPipe s = Opened \<and> stdout s = [] \<and> kills s = []"
proof -
  let ?w = "demo_world (text_of [''cat'', ''send a'', ''want a''])"
  have "\<exists>s. reached ?w demo_argv [] 3 = Some (Script, 1, s)
          \<and> block_open 1 s \<and> stream_of Script s = []
          \<and> \<not> sawExit s \<and> pid s = 100 \<and> readPipe s = Opened \<and> stdout s = [] \<and> kills s = []"
    by (simp add: run_defs block_open_def eval_nat_numeral)
  then obtain s where r: "reached ?w demo_argv [] 3 = Some (Script, 1, s)"
    and b: "block_open 1 s" and e: "stream_of Script s = []"
    and o: "\<not> sawExit s" "pid s = 100" "readPipe s = Opened" "stdout s = []" "kills s = []"
    by blast
  from input_exhausted_in_open_block [OF r b e] o show ?thesis
    by simp
qed

subsection \<open>C5: send and want against a child that echoes\<close>

text \<open>
  The part of C5 that holds. For a text without \<^verbatim>\<open>%\<close> (and without NUL or a line
  terminator, which no line of a script holds), against \<^verbatim>\<open>cat\<close> with all its
  earlier output read: \<^verbatim>\<open>send\<close> writes the text and one line terminator, and
  \<^verbatim>\<open>want\<close> reads back exactly the text and passes.
\<close>

lemma send_want_round_trip:
  assumes "CHR ''%'' \<notin> set text" and "NUL \<notin> set text" and "NL \<notin> set text"
    and "writePipe s = Opened" and "readPipe s = Opened"
    and "child s = cat_program" and "\<not> input_closed s" and "consumed s = length (sent s)"
  shows "handle_send (Some text) s = Inr (3, s\<lparr>sent := sent s @ text @ [NL]\<rparr>)
       \<and> handle_want (Some text) (s\<lparr>sent := sent s @ text @ [NL]\<rparr>)
           = Inr (2, (if echo s
                      then s\<lparr>sent := sent s @ text @ [NL],
                             consumed := length (sent s) + length text + 1,
                             stdout := stdout s @ text @ [NL]\<rparr>
                      else s\<lparr>sent := sent s @ text @ [NL],
                             consumed := length (sent s) + length text + 1\<rparr>))"
proof -
  let ?s1 = "s\<lparr>sent := sent s @ text @ [NL]\<rparr>"
  have pr: "printf_noargs (text @ [NL]) = Some (text @ [NL])"
    using assms(1) by (intro printf_noargs_plain) (simp add: NL_def)
  have send: "handle_send (Some text) s = Inr (3, ?s1)"
    using assms(4,6,7) pr by (simp add: handle_send_def obs_def cat_program_def)
  have avail: "drop (consumed ?s1) (written (obs ?s1)) = text @ [NL]"
    using assms(6,8) by (simp add: obs_def cat_program_def)
  have gl: "get_line (text @ [NL]) = (Some text, [])"
    using get_line_line [OF assms(2,3), of "[]"] by simp
  have "read_child ?s1 = Inr (Some text, ?s1\<lparr>consumed := length (sent s) + length text + 1\<rparr>)"
    using assms(5,8) avail gl by (simp add: read_child_def)
  then have want: "handle_want (Some text) ?s1
           = Inr (2, (if echo s
                      then s\<lparr>sent := sent s @ text @ [NL],
                             consumed := length (sent s) + length text + 1,
                             stdout := stdout s @ text @ [NL]\<rparr>
                      else s\<lparr>sent := sent s @ text @ [NL],
                             consumed := length (sent s) + length text + 1\<rparr>))"
    by (simp add: handle_want_def)
  from send want show ?thesis by simp
qed

text \<open>
  C5 (for every text, what \<^verbatim>\<open>send\<close> writes and a child echoes is matched by
  \<^verbatim>\<open>want\<close>) fails on the code for a text that holds \<^verbatim>\<open>%\<close>:
  \<^verbatim>\<open>handle_send\<close> passes the message to \<^verbatim>\<open>fprintf\<close> as the format. For the
  text \<^verbatim>\<open>100%%\<close> the bytes written are \<^verbatim>\<open>100%\<close> and a line terminator,
  \<^verbatim>\<open>cat\<close> writes those back, and \<^verbatim>\<open>want 100%%\<close> fails on line 3. For
  \<^verbatim>\<open>50%\<close> the call is undefined.
\<close>

theorem send_percent_is_not_verbatim:
  "handle_send (Some ''100%%'') (started cat_program [])
     = Inr (3, (started cat_program [])\<lparr>sent := ''100%'' @ [NL]\<rparr>)
   \<and> handle_want (Some ''100%%'') ((started cat_program [])\<lparr>sent := ''100%'' @ [NL]\<rparr>)
     = Inr (- 1, (started cat_program [])\<lparr>sent := ''100%'' @ [NL], consumed := 5\<rparr>)
   \<and> handle_send (Some ''50%'') (started cat_program []) = Inl Undefined
   \<and> (\<exists>s. main (demo_world (text_of [''cat'', ''send 100%%'', ''want 100%%'', ''endinput'',
                                        ''exit 0'', ''''])) demo_argv [] = Exit 1 s
        \<and> stdout s = ''Test failed on line 3.'' @ [NL])"
  by (simp add: run_defs main_def parse_input.simps started_def)

subsection \<open>C6: the limit command\<close>

text \<open>
  What \<^verbatim>\<open>handle_limit\<close> does, case by case: it fails when a limit command was seen
  in the block, when the parameter is missing, when it does not start with a number
  and when the number is followed by something other than a space or the end. It
  accepts every other number, whatever its sign, and arms the timer with what was
  stored for it.
\<close>

lemma handle_limit_cases:
  "(sawLimit s \<longrightarrow> handle_limit params s = Inr (- 1, s))
   \<and> (params = None \<longrightarrow> handle_limit params s = Inr (- 1, s))
   \<and> (\<forall>p. params = Some p \<and> (no_number p \<or> bad_delimiter p)
         \<longrightarrow> handle_limit params s = Inr (- 1, s))
   \<and> (\<forall>p n. \<not> sawLimit s \<and> params = Some p \<and> number_of p = Some n
         \<longrightarrow> handle_limit params s
               = Inr (9, s\<lparr>timer := nat (stored_int n mod 2 ^ 32), sawLimit := True\<rparr>))"
  by (auto simp: handle_limit_def
      dest: scan_d_c_no_number scan_d_c_bad_delimiter scan_d_c_number_of)

text \<open>
  C6 (\<^verbatim>\<open>limit\<close> takes a non-negative integer, once per block) fails on the code
  for a negative parameter. \<^verbatim>\<open>limit -5\<close> is accepted: the handler returns 9 and
  arms the timer with the value \<^verbatim>\<open>-5\<close> has as an \<^verbatim>\<open>unsigned\<close>, and a
  script with that line runs to status 0.
\<close>

theorem negative_limit_is_accepted:
  "handle_limit (Some ''-5'') (started ok_program [])
     = Inr (9, (started ok_program [])\<lparr>timer := 4294967291, sawLimit := True\<rparr>)
   \<and> (\<exists>s. main (demo_world (text_of [''ok'', ''limit -5'', ''want OK'', ''exit 0'', '''']))
              demo_argv [] = Exit 0 s
        \<and> stdout s = [])"
  by (simp add: run_defs main_def parse_input.simps started_def)

subsection \<open>C7: the end of a block\<close>

text \<open>
  What the end of a block does when both streams are open: this is the effect C7
  describes. When the stream to the child is closed already, it is undefined.
\<close>

lemma close_block_resets:
  assumes "sawExit s" and "readPipe s = Opened" and "writePipe s = Opened"
    and "block_end line"
  shows "parse_line w pb line s =
           Inr (blockCount s,
                s\<lparr>kills := kills s @ [pid s], pid := - 1, readPipe := Closed,
                  writePipe := Closed, input_closed := True, timer := 0,
                  sawLimit := False, sawExit := False,
                  blockCount := blockCount s + 1, lineCount := lineCount s + 1\<rparr>)"
  using assms by (simp add: parse_line_def close_block_def)

lemma close_block_twice_closed:
  assumes "sawExit s" and "writePipe s = Closed" and "block_end line"
  shows "parse_line w pb line s = Inl Undefined"
  using assms by (simp add: parse_line_def close_block_def)

text \<open>
  C7 (the blank line after an exit command ends the block and resets its state) fails
  on the code for a block that used \<^verbatim>\<open>endinput\<close>. The script below is
  \<^verbatim>\<open>cat\<close>, \<^verbatim>\<open>endinput\<close>, \<^verbatim>\<open>exit 0\<close> and a blank line. After three lines the
  exit command has passed and the stream to the child is closed, by
  \<^verbatim>\<open>handle_endinput\<close>; handling the blank line calls \<^verbatim>\<open>fclose\<close> on that stream a
  second time, which is undefined.
\<close>

theorem block_end_after_endinput_undefined:
  "\<exists>s s0. reached (demo_world (text_of [''cat'', ''endinput'', ''exit 0'', ''''])) demo_argv [] 3
            = Some (Script, 1, s)
      \<and> sawExit s \<and> readPipe s = Opened \<and> writePipe s = Closed
      \<and> read_input Script s = (Some [], s0)
      \<and> parse_line (demo_world (text_of [''cat'', ''endinput'', ''exit 0'', ''''])) 1 [] s0
          = Inl Undefined"
  by (simp add: run_defs eval_nat_numeral)

subsection \<open>C8: want when the child's output ends\<close>

text \<open>
  C8 (\<^verbatim>\<open>want\<close> fails when the child's output ends before a full line) does not
  hold as the specification states it. The child below writes \<^verbatim>\<open>OK\<close> with no line
  terminator and ends its output: the stream reaches its end before a full line has
  arrived, and \<^verbatim>\<open>want OK\<close> passes; the script runs to status 0.
\<close>

theorem want_partial_line_counterexample:
  "out_closed (obs (started bare_program []))
   \<and> NL \<notin> set (drop (consumed (started bare_program [])) (written (obs (started bare_program []))))
   \<and> handle_want (Some ''OK'') (started bare_program [])
       = Inr (2, (started bare_program [])\<lparr>consumed := 2\<rparr>)
   \<and> (\<exists>s. main (demo_world (text_of [''bare'', ''want OK'', ''exit 0'', ''''])) demo_argv []
             = Exit 0 s
        \<and> stdout s = [])"
  by (simp add: run_defs main_def parse_input.simps started_def)

text \<open>
  C8, amended. Let the child's output end before a line terminator arrives, after at
  least one byte (none of them NUL). Then \<^verbatim>\<open>want text\<close> takes the bytes read as
  the line: with echo on they are printed; the command passes when they equal the
  text, and the run goes on with the next line; otherwise the run ends with status 1
  and \<^verbatim>\<open>Test failed on line N.\<close> for the current line. (When the output ends with
  no byte read, \<^verbatim>\<open>get_line\<close> returns NULL, which \<^verbatim>\<open>handle_want\<close> passes on
  to \<^verbatim>\<open>strcmp\<close>; nothing is stated about that case.)
\<close>

theorem want_at_end_of_output:
  assumes "\<not> block_end line" and "block_open pb s"
    and "split_command line = (Some ''want'', Some text)"
    and "readPipe s = Opened" and "out_closed (obs s)"
    and "drop (consumed s) (written (obs s)) = avail"
    and "avail \<noteq> []" and "NL \<notin> set avail" and "NUL \<notin> set avail"
  shows "(avail = text \<longrightarrow>
            (\<exists>s'. parse_line w pb line s = Inr (pb, s')
               \<and> lineCount s' = lineCount s + 1
               \<and> stdout s' = stdout s @ (if echo s then avail @ [NL] else [])))
       \<and> (avail \<noteq> text \<longrightarrow>
            (\<exists>s'. parse_line w pb line s = Inl (Exit 1 s')
               \<and> stdout s' = stdout s @ (if echo s then avail @ [NL] else [])
                                @ ''Test failed on line '' @ dec_int (lineCount s) @ ''.'' @ [NL]))"
proof -
  let ?s1 = "s\<lparr>consumed := consumed s + length avail\<rparr>"
  let ?s2 = "if echo s then ?s1\<lparr>stdout := stdout s @ avail @ [NL]\<rparr> else ?s1"
  have rc: "read_child s = Inr (Some avail, ?s1)"
    using assms(4,5,6) get_line_rest [OF assms(9,8,7)] by (simp add: read_child_def)
  then have hw: "handle_want (Some text) s = Inr (if avail \<noteq> text then - 1 else 2, ?s2)"
    by (simp add: handle_want_def)
  have hc: "handle_command (Some ''want'') (Some text) s = handle_want (Some text) s"
    by (simp add: handle_command_def)
  have lc: "lineCount ?s2 = lineCount s"
    by simp
  have pl: "parse_line w pb line s =
              (if avail \<noteq> text then Inl (throw_error ERR_COMMAND (lineCount s) [] ?s2)
               else Inr (pb, ?s2\<lparr>lineCount := lineCount s + 1\<rparr>))"
    using assms(1,2,3) hc hw lc by (simp add: parse_line_def block_open_def)
  have te: "\<exists>s'. throw_error ERR_COMMAND (lineCount s) [] ?s2 = Exit 1 s'
      \<and> stdout s' = stdout s @ (if echo s then avail @ [NL] else [])
                       @ ''Test failed on line '' @ dec_int (lineCount s) @ ''.'' @ [NL]"
    by (simp add: throw_error_def diagnostic_def ERR_COMMAND_def Let_def)
  show ?thesis
  proof (cases "avail = text")
    case True
    with pl have "parse_line w pb line s = Inr (pb, ?s2\<lparr>lineCount := lineCount s + 1\<rparr>)"
      by simp
    moreover have "lineCount (?s2\<lparr>lineCount := lineCount s + 1\<rparr>) = lineCount s + 1"
      by simp
    moreover have "stdout (?s2\<lparr>lineCount := lineCount s + 1\<rparr>)
                     = stdout s @ (if echo s then avail @ [NL] else [])"
      by simp
    ultimately show ?thesis using True by blast
  next
    case False
    with pl have "parse_line w pb line s = Inl (throw_error ERR_COMMAND (lineCount s) [] ?s2)"
      by simp
    with te False show ?thesis by metis
  qed
qed

theorem want_at_end_of_output_witness:
  "(\<exists>s'. parse_line (demo_world []) 1 ''want OK'' (started bare_program [])
            = Inr (1, s') \<and> lineCount s' = 3 \<and> stdout s' = [])
   \<and> (\<exists>s'. parse_line (demo_world []) 1 ''want OK!'' (started bare_program [])
            = Inl (Exit 1 s') \<and> stdout s' = ''Test failed on line 2.'' @ [NL])"
proof -
  let ?s = "started bare_program []"
  have nb: "\<not> block_end ''want OK''" "\<not> block_end ''want OK!''"
    by (simp_all add: block_end_def)
  have bo: "block_open 1 ?s"
    by (simp add: block_open_def started_def init_def)
  have sc: "split_command ''want OK'' = (Some ''want'', Some ''OK'')"
    "split_command ''want OK!'' = (Some ''want'', Some ''OK!'')"
    by (simp_all add: split_command_def strtok_def NL_def)
  have rp: "readPipe ?s = Opened" and oc: "out_closed (obs ?s)"
    and av: "drop (consumed ?s) (written (obs ?s)) = ''OK''"
    and ec: "\<not> echo ?s" and lc: "lineCount ?s = 2" and so: "stdout ?s = []"
    by (simp_all add: started_def init_def obs_def bare_program_def)
  have pl: "''OK'' \<noteq> []" "NL \<notin> set ''OK''" "NUL \<notin> set ''OK''"
    by (simp_all add: NL_def NUL_def)
  note T1 = want_at_end_of_output [OF nb(1) bo sc(1) rp oc av pl, of "demo_world []"]
  note T2 = want_at_end_of_output [OF nb(2) bo sc(2) rp oc av pl, of "demo_world []"]
  from T1 [THEN conjunct1] ec lc so
  have a: "\<exists>s'. parse_line (demo_world []) 1 ''want OK'' ?s = Inr (1, s')
             \<and> lineCount s' = 3 \<and> stdout s' = []"
    by simp
  from T2 [THEN conjunct2] ec lc so
  have b: "\<exists>s'. parse_line (demo_world []) 1 ''want OK!'' ?s = Inl (Exit 1 s')
             \<and> stdout s' = ''Test failed on line 2.'' @ [NL]"
    by (simp add: dec_int_def digit_char_def)
  from a b show ?thesis by blast
qed

subsection \<open>C9: the interactive command and a send that fails\<close>

text \<open>
  Whenever \<^verbatim>\<open>handle_interactive\<close> returns from its loop it returns 8: what
  \<^verbatim>\<open>handle_send\<close> returned for a forwarded line is dropped.
\<close>

lemma interactive_loop_returns_8:
  "interactive_loop word s = Inr (r, s') \<Longrightarrow> r = 8"
proof (induction word s rule: interactive_loop.induct)
  case (1 word s)
  note run = "1.prems" [unfolded interactive_loop.simps [of word s]]
  obtain l rest where g: "get_line (stdin s) = (l, rest)"
    by (cases "get_line (stdin s)")
  show ?case
  proof (cases l)
    case None
    with run g show ?thesis by auto
  next
    case (Some line)
    show ?thesis
    proof (cases "line = word")
      case True
      with run g Some show ?thesis by auto
    next
      case False
      from run g Some False obtain r1 s1 where
        hs: "handle_send (Some line) (s\<lparr>stdin := rest\<rparr>) = Inr (r1, s1)"
        and rec: "interactive_loop word s1 = Inr (r, s')"
        by (auto split: sum.splits)
      from "1.IH" [of l rest line "(r1, s1)" r1 s1] g Some False hs rec show ?thesis
        by simp
    qed
  qed
qed

text \<open>
  The send of a forwarded line fails when the child no longer reads its input, as
  after the exit command has waited for it to terminate. In a run with no signal
  blocked the write raises \<^verbatim>\<open>SIGPIPE\<close>, and the handler ends the run with the
  diagnostic of a command failure on the line of the interactive command.
\<close>

lemma interactive_broken_pipe_signalled:
  "\<exists>s. main (demo_world (text_of [''ok'', ''exit 0'', ''interactive END '', '''']))
            demo_argv (text_of [''x'', ''END'']) = Exit 1 s
      \<and> stdout s = ''Test failed on line 3.'' @ [NL]"
  by (simp add: run_defs main_def parse_input.simps interactive_loop.simps)

text \<open>
  C9 (\<^verbatim>\<open>interactive\<close> fails when a forwarded send fails) fails on the code for a
  run that was started with \<^verbatim>\<open>SIGPIPE\<close> blocked in its signal mask. The child
  below has terminated, so the write of the forwarded line \<^verbatim>\<open>x\<close> fails; no
  signal is delivered, \<^verbatim>\<open>handle_send\<close> returns \<open>-1\<close>, and
  \<^verbatim>\<open>handle_interactive\<close> returns 8 all the same. The script \<^verbatim>\<open>ok\<close>,
  \<^verbatim>\<open>exit 0\<close>, \<^verbatim>\<open>interactive END\<close> and a blank line runs to status 0 and
  prints nothing. (In the script a space follows the word \<^verbatim>\<open>END\<close>: the buffer
  that \<^verbatim>\<open>handle_interactive\<close> allocates for the word has the length of the
  parameter text, and so the word fits it together with its terminating NUL.)
\<close>

theorem interactive_ignores_failed_send:
  "stdin_cond (obs ((started ok_program [])\<lparr>sigmask := sigpipe_blocked\<rparr>)) = Broken
   \<and> handle_send (Some ''x'') ((started ok_program (text_of [''END'']))\<lparr>sigmask := sigpipe_blocked\<rparr>)
     = Inr (- 1, (started ok_program (text_of [''END'']))\<lparr>sigmask := sigpipe_blocked\<rparr>)
   \<and> handle_interactive (Some ''END '')
        ((started ok_program (text_of [''x'', ''END'']))\<lparr>sigmask := sigpipe_blocked\<rparr>)
     = Inr (8, (started ok_program [])\<lparr>sigmask := sigpipe_blocked\<rparr>)
   \<and> (\<exists>s. main ((demo_world (text_of [''ok'', ''exit 0'', ''interactive END '', '''']))
                   \<lparr>inherited_mask := sigpipe_blocked\<rparr>)
              demo_argv (text_of [''x'', ''END'']) = Exit 0 s
        \<and> stdout s = [])"
  by (simp add: run_defs main_def parse_input.simps interactive_loop.simps started_def)

subsection \<open>C10: a blank line where no block is open\<close>

text \<open>
  C10. Take any run that stands at the head of the loop with no block open (at the very
  start of the script, or right after the blank line that ended a block), and let the
  next line be blank. The line is not skipped: the run ends with exit status 2 and
  prints \<^verbatim>\<open>Block N ended without an exit.\<close> with the number \<open>N\<close> the next block
  would have had, one more than the number of blocks that have ended; no process is
  signalled.
\<close>

theorem blank_line_outside_block_aborts:
  assumes "reached w argv stdin_bytes n = Some (input, pb, s)"
    and "\<not> block_open pb s"
    and "read_input input s = (Some line, s0)"
    and "block_end line"
  shows "\<exists>s'. main w argv stdin_bytes = Exit 2 s'
           \<and> stdout s' = stdout s @ ''Block '' @ dec_int (blockCount s)
                            @ '' ended without an exit.'' @ [NL]
           \<and> blockCount s = 1 + int (blocks_ended w argv stdin_bytes n)
           \<and> kills s' = kills s"
proof -
  from reached_inv [OF assms(1)] assms(2)
  have i: "\<not> sawExit s" "pid s = - 1"
    by (auto simp: loop_inv_def)
  from read_input_frame [OF assms(3)] i
  have f: "stdout s0 = stdout s" "blockCount s0 = blockCount s" "\<not> sawExit s0"
    "pid s0 = - 1" "kills s0 = kills s"
    by simp_all
  have "parse_input w input pb s = Inl (throw_error ERR_BLOCK (blockCount s0) [] s0)"
    using parse_input_step [OF assms(3), of w pb]
      loop_step_blank_no_exit [OF assms(4) f(3), of w pb]
    by simp
  with main_reached [OF assms(1)]
  have "main w argv stdin_bytes = throw_error ERR_BLOCK (blockCount s0) [] s0"
    by simp
  with throw_error_block [of "blockCount s0" "[]" s0] f reached_blockCount [OF assms(1)]
  show ?thesis
    by auto
qed

theorem blank_line_outside_block_aborts_witness:
  "(\<exists>s'. main (demo_world (text_of [''ok'', ''want OK'', ''exit 0'', '''', '''', ''ok'']))
            demo_argv [] = Exit 2 s'
      \<and> stdout s' = ''Block 2 ended without an exit.'' @ [NL]
      \<and> kills s' = [101])
   \<and> (\<exists>s'. main (demo_world (text_of ['''', ''ok'', ''exit 0'', ''''])) demo_argv []
            = Exit 2 s'
      \<and> stdout s' = ''Block 1 ended without an exit.'' @ [NL]
      \<and> kills s' = [])"
proof -
  let ?w = "demo_world (text_of [''ok'', ''want OK'', ''exit 0'', '''', '''', ''ok''])"
  let ?v = "demo_world (text_of ['''', ''ok'', ''exit 0'', ''''])"
  have be: "block_end []" by (simp add: block_end_def)
  have "\<exists>s. reached ?w demo_argv [] 4 = Some (Script, 1, s)
          \<and> \<not> block_open 1 s \<and> stdout s = [] \<and> blockCount s = 2 \<and> kills s = [101]
          \<and> (\<exists>s0. read_input Script s = (Some [], s0))"
    by (simp add: run_defs block_open_def eval_nat_numeral)
  then obtain s s0 where r: "reached ?w demo_argv [] 4 = Some (Script, 1, s)"
    and b: "\<not> block_open 1 s"
    and o: "stdout s = []" "blockCount s = 2" "kills s = [101]"
    and l: "read_input Script s = (Some [], s0)"
    by blast
  from blank_line_outside_block_aborts [OF r b l be] o
  have after: "\<exists>s'. main ?w demo_argv [] = Exit 2 s'
      \<and> stdout s' = ''Block 2 ended without an exit.'' @ [NL] \<and> kills s' = [101]"
    by (auto simp: dec_int_def digit_char_def)
  have "\<exists>s. reached ?v demo_argv [] 0 = Some (Script, 0, s)
          \<and> \<not> block_open 0 s \<and> stdout s = [] \<and> blockCount s = 1 \<and> kills s = []
          \<and> (\<exists>s0. read_input Script s = (Some [], s0))"
    by (simp add: run_defs block_open_def)
  then obtain s s0 where r: "reached ?v demo_argv [] 0 = Some (Script, 0, s)"
    and b: "\<not> block_open 0 s"
    and o: "stdout s = []" "blockCount s = 1" "kills s = []"
    and l: "read_input Script s = (Some [], s0)"
    by blast
  from blank_line_outside_block_aborts [OF r b l be] o
  have start: "\<exists>s'. main ?v demo_argv [] = Exit 2 s'
      \<and> stdout s' = ''Block 1 ended without an exit.'' @ [NL] \<and> kills s' = []"
    by (auto simp: dec_int_def digit_char_def)
  from after start show ?thesis by blast
qed

end
